theory Spec2Isabelle
  imports Main "HOL-Library.Word" "HOL-Library.AList"
begin

unbundle bit_operations_syntax

section \<open>Data model of the ofnet agent\<close>

text \<open>
  The agent is the file \<^verbatim>\<open>src/unnamed/part_001\<close> (package \<^verbatim>\<open>ofnet\<close>, type
  \<^verbatim>\<open>OfnetAgent\<close>); the line numbers below are its lines.  Of the operations on
  its tables, \<^verbatim>\<open>AddMaster\<close> and \<^verbatim>\<open>RemoveMaster\<close> are left out: \<^verbatim>\<open>masterDb\<close> is the
  only table they write.

  The agent only ever inspects a \<^verbatim>\<open>net.IP\<close> through its
  \<^verbatim>\<open>String()\<close> rendering: the keys of \<^verbatim>\<open>vtepTable\<close> and \<^verbatim>\<open>endpointDb\<close> and every
  comparison of \<^verbatim>\<open>OriginatorIp\<close> with \<^verbatim>\<open>localIp\<close> go through \<^verbatim>\<open>.String()\<close>.  An IP
  address is therefore represented by that rendering; the same holds for
  \<^verbatim>\<open>net.HardwareAddr\<close>.  A \<^verbatim>\<open>time.Time\<close> is an instant on a linear time line, and
  \<^verbatim>\<open>t.After(u)\<close> is \<open>u < t\<close>.
\<close>

type_synonym IP = string
type_synonym HardwareAddr = string
type_synonym Time = int

text \<open>
  Go's \<^verbatim>\<open>error\<close> values.  The first constructors are the errors the two source files
  create with \<^verbatim>\<open>errors.New\<close> (the message is given beside each); \<open>ExternalError\<close> is an
  error handed back by a collaborator (datapath, RPC client, OpenFlow library,
  \<^verbatim>\<open>net.ParseCIDR\<close>).  A returned \<^verbatim>\<open>nil\<close> is \<open>None\<close>.
\<close>

datatype error =
    UnknownVlan             \<comment> \<open>\<^verbatim>\<open>"Unknown Vlan"\<close>\<close>
  | EndpointNotFound        \<comment> \<open>\<^verbatim>\<open>"Endpoint not found"\<close>\<close>
  | VtepNotFound            \<comment> \<open>\<^verbatim>\<open>"VTEP not found"\<close>\<close>
  | DstGroupNotFound        \<comment> \<open>\<^verbatim>\<open>"Dst Group not found"\<close>\<close>
  | RuleAlreadyExists       \<comment> \<open>\<^verbatim>\<open>"Rule already exists"\<close>\<close>
  | UnknownTcpFlag          \<comment> \<open>\<^verbatim>\<open>"Unknown TCP flag"\<close>\<close>
  | RuleNotFound            \<comment> \<open>\<^verbatim>\<open>"rule not found"\<close>\<close>
  | ExternalError string

record OfnetNode =
  HostAddr :: string
  HostPort :: "16 word"

text \<open>Local endpoint information, as passed to \<^verbatim>\<open>AddLocalEndpoint\<close>.\<close>

record EndpointInfo =
  PortNo :: "32 word"
  EndpointGroup :: int
  MacAddr :: HardwareAddr
  Vlan :: "16 word"
  IpAddr :: IP

text \<open>
  Modelled from the spec: the declaration of \<^verbatim>\<open>OfnetEndpoint\<close> is not among the source
  files.  The fields are those of the composite literal in \<^verbatim>\<open>AddLocalEndpoint\<close>, which
  are also the fields the specification lists for an Endpoint.
\<close>

record OfnetEndpoint =
  EndpointID :: string
  EndpointType :: string
  EndpointGroup :: int
  IpAddr :: IP
  VrfId :: "16 word"
  MacAddrStr :: string
  Vlan :: "16 word"
  Vni :: "32 word"
  OriginatorIp :: IP
  PortNo :: "32 word"
  Timestamp :: Time

subsection \<open>Go maps\<close>

text \<open>
  A Go map is an association list; \<^verbatim>\<open>m[k]\<close> is \<open>map_of m k\<close> (\<open>None\<close> for the nil a
  missing key yields: every value the agent stores is a non-nil pointer), \<^verbatim>\<open>m[k] = v\<close>
  is \<open>AList.update k v m\<close> and \<^verbatim>\<open>delete(m, k)\<close> is \<open>AList.delete k m\<close>.  The order of
  the list stands for the order in which a \<^verbatim>\<open>range\<close> loop happens to visit the map;
  Go leaves it unspecified, and so every statement below is made for any order.
  The tables hold pointers in the source; nothing in the agent writes through
  them after the insertion, so the tables hold the values here.
\<close>

type_synonym ('k, 'v) gomap = "('k \<times> 'v) list"

subsection \<open>Outbound calls\<close>

text \<open>
  The datapath is an interface value (\<^verbatim>\<open>OfnetDatapath\<close>) and the masters are reached
  through \<^verbatim>\<open>rpcHub.Client(addr, port).Call(method, arg, &resp)\<close>.  Each such call is an
  event; the agent state records the events in the order they were issued.
\<close>

datatype rpc_arg = ArgEndpoint OfnetEndpoint | ArgNode OfnetNode

datatype call =
    DpAddLocalEndpoint OfnetEndpoint
  | DpRemoveLocalEndpoint OfnetEndpoint
  | DpAddEndpoint OfnetEndpoint
  | DpRemoveEndpoint OfnetEndpoint
  | DpAddVtepPort "32 word" IP
  | DpRemoveVtepPort "32 word" IP
  | DpAddVlan "16 word" "32 word"
  | DpRemoveVlan "16 word" "32 word"
  | RpcCall OfnetNode string rpc_arg

record OfnetAgent =
  localIp :: IP
  masterDb :: "(string, OfnetNode) gomap"
  portVlanMap :: "(32 word, 16 word) gomap"
  vniVlanMap :: "(32 word, 16 word) gomap"
  vlanVniMap :: "(16 word, 32 word) gomap"
  vtepTable :: "(string, 32 word) gomap"
  endpointDb :: "(string, OfnetEndpoint) gomap"
  localEndpointDb :: "(32 word, OfnetEndpoint) gomap"
  calls :: "call list"

text \<open>
  The collaborators are deterministic but otherwise arbitrary: the error a call
  returns may depend on the call and on the whole agent state at the moment of the
  call, which includes the history of earlier calls.
\<close>

type_synonym env = "OfnetAgent \<Rightarrow> call \<Rightarrow> error option"

definition invoke :: "env \<Rightarrow> call \<Rightarrow> OfnetAgent \<Rightarrow> error option \<times> OfnetAgent" where
  "invoke env c s = (env s c, s\<lparr>calls := calls s @ [c]\<rparr>)"

section \<open>Agent operations\<close>

definition getEndpointId :: "EndpointInfo \<Rightarrow> string" where
  "getEndpointId endpoint = EndpointInfo.IpAddr endpoint"

text \<open>
  \<^verbatim>\<open>AddLocalEndpoint\<close>, lines 284-338.  \<open>now\<close> is the value \<^verbatim>\<open>time.Now()\<close> returns.
  The loop over \<^verbatim>\<open>masterDb\<close> returns at the first RPC that fails.
\<close>

fun announceAdd :: "env \<Rightarrow> OfnetEndpoint \<Rightarrow> (string \<times> OfnetNode) list \<Rightarrow> OfnetAgent
    \<Rightarrow> error option \<times> OfnetAgent" where
  "announceAdd env epreg [] s = (None, s)"
| "announceAdd env epreg ((key, master) # rest) s =
     (case invoke env (RpcCall master ''OfnetMaster.EndpointAdd'' (ArgEndpoint epreg)) s of
        (Some err, s') \<Rightarrow> (Some err, s')
      | (None, s') \<Rightarrow> announceAdd env epreg rest s')"

definition buildEpreg :: "IP \<Rightarrow> Time \<Rightarrow> 32 word \<Rightarrow> EndpointInfo \<Rightarrow> OfnetEndpoint" where
  \<comment> \<open>the composite literal of lines 298-310 (\<^verbatim>\<open>// Build endpoint registry info\<close>)\<close>
  "buildEpreg self_localIp now vni endpoint =
     \<lparr>EndpointID = getEndpointId endpoint,
      EndpointType = ''internal'',
      EndpointGroup = EndpointInfo.EndpointGroup endpoint,
      IpAddr = EndpointInfo.IpAddr endpoint,
      VrfId = 0,
      MacAddrStr = MacAddr endpoint,
      Vlan = EndpointInfo.Vlan endpoint,
      Vni = vni,
      OriginatorIp = self_localIp,
      PortNo = EndpointInfo.PortNo endpoint,
      Timestamp = now\<rparr>"

definition AddLocalEndpoint :: "env \<Rightarrow> Time \<Rightarrow> EndpointInfo \<Rightarrow> OfnetAgent
    \<Rightarrow> error option \<times> OfnetAgent" where
  "AddLocalEndpoint env now endpoint s =
     (let s1 = s\<lparr>portVlanMap :=
                  AList.update (EndpointInfo.PortNo endpoint) (EndpointInfo.Vlan endpoint)
                    (portVlanMap s)\<rparr>
      in case map_of (vlanVniMap s1) (EndpointInfo.Vlan endpoint) of
           None \<Rightarrow> (Some UnknownVlan, s1)
         | Some vni \<Rightarrow>
             (let epId = getEndpointId endpoint;
                  epreg = buildEpreg (localIp s1) now vni endpoint
              in case invoke env (DpAddLocalEndpoint epreg) s1 of
                   (Some err, s2) \<Rightarrow> (Some err, s2)
                 | (None, s2) \<Rightarrow>
                     (let s3 = s2\<lparr>endpointDb := AList.update epId epreg (endpointDb s2),
                                  localEndpointDb :=
                                    AList.update (EndpointInfo.PortNo endpoint) epreg
                                      (localEndpointDb s2)\<rparr>
                      in announceAdd env epreg (masterDb s3) s3)))"

text \<open>
  \<^verbatim>\<open>RemoveLocalEndpoint\<close>, lines 341-376.  The datapath's error and the masters'
  errors are logged only; every master is called.
\<close>

fun announceDel :: "env \<Rightarrow> OfnetEndpoint \<Rightarrow> (string \<times> OfnetNode) list \<Rightarrow> OfnetAgent
    \<Rightarrow> OfnetAgent" where
  "announceDel env epreg [] s = s"
| "announceDel env epreg ((key, master) # rest) s =
     announceDel env epreg rest
       (snd (invoke env (RpcCall master ''OfnetMaster.EndpointDel'' (ArgEndpoint epreg)) s))"

definition RemoveLocalEndpoint :: "env \<Rightarrow> 32 word \<Rightarrow> OfnetAgent \<Rightarrow> error option \<times> OfnetAgent" where
  "RemoveLocalEndpoint env portNo s =
     (let s1 = s\<lparr>portVlanMap := AList.delete portNo (portVlanMap s)\<rparr>
      in case map_of (localEndpointDb s1) portNo of
           None \<Rightarrow> (Some EndpointNotFound, s1)
         | Some epreg \<Rightarrow>
             (let s2 = snd (invoke env (DpRemoveLocalEndpoint epreg) s1);
                  s3 = s2\<lparr>endpointDb := AList.delete (EndpointID epreg) (endpointDb s2),
                          localEndpointDb := AList.delete portNo (localEndpointDb s2)\<rparr>
              in (None, announceDel env epreg (masterDb s3) s3)))"

text \<open>\<^verbatim>\<open>AddVtepPort\<close>, lines 380-394: a duplicate add is ignored.\<close>

definition AddVtepPort :: "env \<Rightarrow> 32 word \<Rightarrow> IP \<Rightarrow> OfnetAgent \<Rightarrow> error option \<times> OfnetAgent" where
  "AddVtepPort env portNo remoteIp s =
     (if (case map_of (vtepTable s) remoteIp of
            Some oldPort \<Rightarrow> oldPort = portNo
          | None \<Rightarrow> False)
      then (None, s)
      else invoke env (DpAddVtepPort portNo remoteIp)
             (s\<lparr>vtepTable := AList.update remoteIp portNo (vtepTable s)\<rparr>))"

text \<open>\<^verbatim>\<open>EndpointDel\<close>, lines 492-514.  The datapath's error is logged only.\<close>

definition EndpointDel :: "env \<Rightarrow> OfnetEndpoint \<Rightarrow> OfnetAgent \<Rightarrow> error option \<times> OfnetAgent" where
  "EndpointDel env epreg s =
     (if OriginatorIp epreg = localIp s then (None, s)
      else if map_of (endpointDb s) (EndpointID epreg) = None then (None, s)
      else (let s1 = snd (invoke env (DpRemoveEndpoint epreg) s)
            in (None, s1\<lparr>endpointDb := AList.delete (EndpointID epreg) (endpointDb s1)\<rparr>)))"

text \<open>
  \<^verbatim>\<open>RemoveVtepPort\<close>, lines 397-416.  The \<^verbatim>\<open>range\<close> loop runs over the entries the
  table has when the loop starts; the body deletes from the table it iterates, and
  Go does not produce an entry that was removed before the loop reached it, so each
  entry is looked up again in the current table (\<open>uninstallIfRemote\<close> is the loop
  body).  The error of \<^verbatim>\<open>EndpointDel\<close> is logged only.
\<close>

definition uninstallIfRemote :: "env \<Rightarrow> IP \<Rightarrow> string \<Rightarrow> OfnetAgent \<Rightarrow> OfnetAgent" where
  "uninstallIfRemote env remoteIp key s =
     (case map_of (endpointDb s) key of
        None \<Rightarrow> s
      | Some endpoint \<Rightarrow>
          if OriginatorIp endpoint = remoteIp then snd (EndpointDel env endpoint s) else s)"

fun uninstallRemote :: "env \<Rightarrow> IP \<Rightarrow> (string \<times> OfnetEndpoint) list \<Rightarrow> OfnetAgent \<Rightarrow> OfnetAgent" where
  "uninstallRemote env remoteIp [] s = s"
| "uninstallRemote env remoteIp ((key, e) # rest) s =
     uninstallRemote env remoteIp rest (uninstallIfRemote env remoteIp key s)"

definition RemoveVtepPort :: "env \<Rightarrow> 32 word \<Rightarrow> IP \<Rightarrow> OfnetAgent \<Rightarrow> error option \<times> OfnetAgent" where
  "RemoveVtepPort env portNo remoteIp s =
     (let s1 = s\<lparr>vtepTable := AList.delete remoteIp (vtepTable s)\<rparr>;
          s2 = uninstallRemote env remoteIp (endpointDb s1) s1
      in invoke env (DpRemoveVtepPort portNo remoteIp) s2)"

text \<open>\<^verbatim>\<open>AddVlan\<close>, lines 420-427.\<close>

definition AddVlan :: "env \<Rightarrow> 16 word \<Rightarrow> 32 word \<Rightarrow> OfnetAgent \<Rightarrow> error option \<times> OfnetAgent" where
  "AddVlan env vlanId vni s =
     invoke env (DpAddVlan vlanId vni)
       (s\<lparr>vlanVniMap := AList.update vlanId vni (vlanVniMap s),
          vniVlanMap := AList.update vni vlanId (vniVlanMap s)\<rparr>)"

text \<open>
  \<^verbatim>\<open>RemoveVlan\<close>, lines 430-444.  \<^verbatim>\<open>log.Fatalf\<close> ends the process: the call does not
  return, which is the outcome \<open>Fatal\<close>.
\<close>

datatype 'a exec = Fatal | Returns 'a

definition RemoveVlan :: "env \<Rightarrow> 16 word \<Rightarrow> 32 word \<Rightarrow> OfnetAgent
    \<Rightarrow> (error option \<times> OfnetAgent) exec" where
  "RemoveVlan env vlanId vni s =
     (let s1 = s\<lparr>vlanVniMap := AList.delete vlanId (vlanVniMap s),
                 vniVlanMap := AList.delete vni (vniVlanMap s)\<rparr>
      in if list_ex (\<lambda>(key, endpoint). Vni endpoint = vni) (endpointDb s1) then Fatal
         else Returns (invoke env (DpRemoveVlan vlanId vni) s1))"

text \<open>\<^verbatim>\<open>EndpointAdd\<close>, lines 447-489: the RPC by which a master adds a remote endpoint.\<close>

definition EndpointAdd :: "env \<Rightarrow> OfnetEndpoint \<Rightarrow> OfnetAgent \<Rightarrow> error option \<times> OfnetAgent" where
  "EndpointAdd env epreg s =
     (if OriginatorIp epreg = localIp s then (None, s)
      else
        (let oldEp = map_of (endpointDb s) (EndpointID epreg)
         in if (case oldEp of
                  Some old \<Rightarrow> \<not> Timestamp old < Timestamp epreg
                | None \<Rightarrow> False)
            then (None, s)
            else
              (let s1 = (case oldEp of
                           Some old \<Rightarrow> snd (invoke env (DpRemoveEndpoint old) s)
                         | None \<Rightarrow> s);
                   s2 = s1\<lparr>endpointDb := AList.update (EndpointID epreg) epreg (endpointDb s1)\<rparr>
               in case map_of (vtepTable s2) (OriginatorIp epreg) of
                    None \<Rightarrow> (Some VtepNotFound, s2)
                  | Some vtepPort \<Rightarrow> invoke env (DpAddEndpoint epreg) s2)))"

text \<open>The state \<^verbatim>\<open>NewOfnetAgent\<close> builds: every table empty.\<close>

definition NewOfnetAgent :: "IP \<Rightarrow> OfnetAgent" where
  "NewOfnetAgent ip =
     \<lparr>localIp = ip, masterDb = [], portVlanMap = [], vniVlanMap = [], vlanVniMap = [],
      vtepTable = [], endpointDb = [], localEndpointDb = [], calls = []\<rparr>"

section \<open>Policy agent\<close>

text \<open>
  \<^verbatim>\<open>ofnetPolicy.go\<close>.  The match fields are those the composite literal of
  \<^verbatim>\<open>AddRule\<close> sets (lines 274-290); a nil pointer is \<open>None\<close>.
\<close>

record FlowMatch =
  Priority :: "16 word"
  Ethertype :: "16 word"
  IpDa :: "IP option"
  IpDaMask :: "IP option"
  IpSa :: "IP option"
  IpSaMask :: "IP option"
  IpProto :: "8 word"
  TcpSrcPort :: "16 word"
  TcpDstPort :: "16 word"
  UdpSrcPort :: "16 word"
  UdpDstPort :: "16 word"
  Metadata :: "64 word option"
  MetadataMask :: "64 word option"
  TcpFlags :: "16 word option"
  TcpFlagsMask :: "16 word option"

text \<open>
  Modelled from the spec: the declaration of \<^verbatim>\<open>OfnetPolicyRule\<close> is not among the
  source files.  The fields are those the specification lists for a PolicyRule,
  with the types their uses in \<^verbatim>\<open>AddRule\<close> require.
\<close>

record OfnetPolicyRule =
  RuleId :: string
  Priority :: int
  SrcEndpointGroup :: int
  DstEndpointGroup :: int
  SrcIpAddr :: string
  DstIpAddr :: string
  IpProtocol :: "8 word"
  SrcPort :: "16 word"
  DstPort :: "16 word"
  TcpFlags :: string
  Action :: string

text \<open>
  Modelled from the spec: the OpenFlow library \<^verbatim>\<open>ofctrl\<close> (the flow pipeline
  primitives) is not among the source files.  \<open>FgraphElem\<close> is what a flow is chained
  to in \<^verbatim>\<open>AddRule\<close>, \<^verbatim>\<open>self.nextTable\<close> or \<^verbatim>\<open>self.ofSwitch.DropAction()\<close>; a flow handle
  carries its match and the element \<^verbatim>\<open>Next\<close> chained it to.
\<close>

datatype FgraphElem = NextTable | DropAction

record Flow =
  Match :: FlowMatch
  NextElem :: "FgraphElem option"

record PolicyRule =
  rule :: OfnetPolicyRule
  flow :: Flow

text \<open>Calls into the OpenFlow library, recorded like the agent's outbound calls.\<close>

datatype ofcall =
    NewFlow FlowMatch
  | FlowNext Flow FgraphElem
  | FlowDelete Flow

record PolicyAgent =
  Rules :: "(string, PolicyRule) gomap"
  DstGrpFlow :: "(string, Flow) gomap"
  ofcalls :: "ofcall list"

type_synonym ofenv = "PolicyAgent \<Rightarrow> ofcall \<Rightarrow> error option"

definition ofinvoke :: "ofenv \<Rightarrow> ofcall \<Rightarrow> PolicyAgent \<Rightarrow> error option \<times> PolicyAgent" where
  "ofinvoke env c s = (env s c, s\<lparr>ofcalls := ofcalls s @ [c]\<rparr>)"

text \<open>
  \<^verbatim>\<open>net.ParseCIDR\<close> belongs to Go's library and is a parameter: \<open>cidr a\<close> is either the
  error it returns or the pair of the parsed address and of
  \<^verbatim>\<open>net.ParseIP("255.255.255.255").Mask(ipNet.Mask)\<close>.
\<close>

type_synonym cidr_parser = "string \<Rightarrow> error + IP \<times> IP"

definition FLOW_POLICY_PRIORITY_OFFSET :: int where
  "FLOW_POLICY_PRIORITY_OFFSET = 10"

definition TCP_FLAG_ACK :: "16 word" where
  "TCP_FLAG_ACK = 0x10"

definition TCP_FLAG_SYN :: "16 word" where
  "TCP_FLAG_SYN = 0x2"

text \<open>
  \<^verbatim>\<open>DstGroupMetadata\<close> and \<^verbatim>\<open>SrcGroupMetadata\<close>, lines 89-105.  \<^verbatim>\<open>uint64(groupId)\<close> is
  \<open>word_of_int\<close>: the conversion of a Go \<^verbatim>\<open>int\<close> keeps the value modulo \<open>2 ^ 64\<close>.
\<close>

definition DstGroupMetadata :: "int \<Rightarrow> 64 word \<times> 64 word" where
  "DstGroupMetadata groupId =
     (let metadata = push_bit 1 (word_of_int groupId :: 64 word);
          metadataMask = 0xfffe
      in (metadata AND metadataMask, metadataMask))"

definition SrcGroupMetadata :: "int \<Rightarrow> 64 word \<times> 64 word" where
  "SrcGroupMetadata groupId =
     (let metadata = push_bit 16 (word_of_int groupId :: 64 word);
          metadataMask = 0x7fff0000
      in (metadata AND metadataMask, metadataMask))"

text \<open>\<^verbatim>\<open>ruleIsSame\<close>: \<^verbatim>\<open>reflect.DeepEqual\<close> on two structs of strings and integers.\<close>

definition ruleIsSame :: "OfnetPolicyRule \<Rightarrow> OfnetPolicyRule \<Rightarrow> bool" where
  "ruleIsSame r1 r2 \<longleftrightarrow> r1 = r2"

text \<open>
  The steps of \<^verbatim>\<open>AddRule\<close> between the look-up of the rule and the installation of
  the flow: the two addresses (lines 201-225), the endpoint groups (lines 227-243)
  and the TCP flags (lines 245-272), each in the order of the source, and the
  match they are assembled into (lines 274-290).
\<close>

definition parseIp :: "cidr_parser \<Rightarrow> string \<Rightarrow> error + IP option \<times> IP option" where
  "parseIp cidr addr =
     (if addr \<noteq> ''''
      then (case cidr addr of
              Inl err \<Rightarrow> Inl err
            | Inr (ip, ipMask) \<Rightarrow> Inr (Some ip, Some ipMask))
      else Inr (None, None))"

definition groupMetadata :: "OfnetPolicyRule \<Rightarrow> 64 word option \<times> 64 word option" where
  "groupMetadata r =
     (if SrcEndpointGroup r \<noteq> 0 \<and> DstEndpointGroup r \<noteq> 0
      then (let (srcMetadata, srcMetadataMask) = SrcGroupMetadata (SrcEndpointGroup r);
                (dstMetadata, dstMetadataMask) = DstGroupMetadata (DstEndpointGroup r);
                metadata = srcMetadata OR dstMetadata;
                metadataMask = srcMetadataMask OR dstMetadataMask
            in (Some metadata, Some metadataMask))
      else if SrcEndpointGroup r \<noteq> 0
      then (let (srcMetadata, srcMetadataMask) = SrcGroupMetadata (SrcEndpointGroup r)
            in (Some srcMetadata, Some srcMetadataMask))
      else if DstEndpointGroup r \<noteq> 0
      then (let (dstMetadata, dstMetadataMask) = DstGroupMetadata (DstEndpointGroup r)
            in (Some dstMetadata, Some dstMetadataMask))
      else (None, None))"

definition tcpFlags :: "OfnetPolicyRule \<Rightarrow> error + 16 word option \<times> 16 word option" where
  "tcpFlags r =
     (if IpProtocol r = 6 \<and> OfnetPolicyRule.TcpFlags r \<noteq> ''''
      then (if OfnetPolicyRule.TcpFlags r = ''syn''
              then Inr (Some TCP_FLAG_SYN, Some TCP_FLAG_SYN)
            else if OfnetPolicyRule.TcpFlags r = ''syn,ack''
              then Inr (Some (TCP_FLAG_ACK OR TCP_FLAG_SYN), Some (TCP_FLAG_ACK OR TCP_FLAG_SYN))
            else if OfnetPolicyRule.TcpFlags r = ''ack''
              then Inr (Some TCP_FLAG_ACK, Some TCP_FLAG_ACK)
            else if OfnetPolicyRule.TcpFlags r = ''syn,!ack''
              then Inr (Some TCP_FLAG_SYN, Some (TCP_FLAG_ACK OR TCP_FLAG_SYN))
            else if OfnetPolicyRule.TcpFlags r = ''!syn,ack''
              then Inr (Some TCP_FLAG_ACK, Some (TCP_FLAG_ACK OR TCP_FLAG_SYN))
            else Inl UnknownTcpFlag)
      else Inr (None, None))"

definition compileRule :: "cidr_parser \<Rightarrow> OfnetPolicyRule \<Rightarrow> error + FlowMatch" where
  "compileRule cidr r =
     (case parseIp cidr (DstIpAddr r) of
        Inl err \<Rightarrow> Inl err
      | Inr (ipDa, ipDaMask) \<Rightarrow>
     (case parseIp cidr (SrcIpAddr r) of
        Inl err \<Rightarrow> Inl err
      | Inr (ipSa, ipSaMask) \<Rightarrow>
     (let (md, mdm) = groupMetadata r
      in case tcpFlags r of
           Inl err \<Rightarrow> Inl err
         | Inr (flagPtr, flagMaskPtr) \<Rightarrow>
             Inr \<lparr>FlowMatch.Priority =
                    word_of_int (FLOW_POLICY_PRIORITY_OFFSET + OfnetPolicyRule.Priority r),
                  Ethertype = 0x0800,
                  IpDa = ipDa,
                  IpDaMask = ipDaMask,
                  IpSa = ipSa,
                  IpSaMask = ipSaMask,
                  IpProto = IpProtocol r,
                  TcpSrcPort = SrcPort r,
                  TcpDstPort = DstPort r,
                  UdpSrcPort = SrcPort r,
                  UdpDstPort = DstPort r,
                  Metadata = md,
                  MetadataMask = mdm,
                  FlowMatch.TcpFlags = flagPtr,
                  TcpFlagsMask = flagMaskPtr\<rparr>)))"

text \<open>
  \<^verbatim>\<open>ruleFlow.Next\<close> as \<^verbatim>\<open>AddRule\<close> uses it (lines 296-309): an action other than
  \<^verbatim>\<open>"accept"\<close> and \<^verbatim>\<open>"deny"\<close> chains the flow to nothing.
\<close>

definition chainRule :: "ofenv \<Rightarrow> OfnetPolicyRule \<Rightarrow> Flow \<Rightarrow> PolicyAgent
    \<Rightarrow> error option \<times> Flow \<times> PolicyAgent" where
  "chainRule env r ruleFlow s =
     (if Action r = ''accept''
      then (case ofinvoke env (FlowNext ruleFlow NextTable) s of
              (err, s') \<Rightarrow> (err, ruleFlow\<lparr>NextElem := Some NextTable\<rparr>, s'))
      else if Action r = ''deny''
      then (case ofinvoke env (FlowNext ruleFlow DropAction) s of
              (err, s') \<Rightarrow> (err, ruleFlow\<lparr>NextElem := Some DropAction\<rparr>, s'))
      else (None, ruleFlow, s))"

text \<open>
  \<^verbatim>\<open>AddRule\<close>, lines 177-319.  The argument the source calls \<^verbatim>\<open>rule\<close> is \<open>r\<close>
  here, \<open>rule\<close> being the field of \<open>PolicyRule\<close>.
\<close>

definition AddRule :: "cidr_parser \<Rightarrow> ofenv \<Rightarrow> OfnetPolicyRule \<Rightarrow> PolicyAgent
    \<Rightarrow> error option \<times> PolicyAgent" where
  "AddRule cidr env r s =
     (case map_of (Rules s) (RuleId r) of
        Some old \<Rightarrow>
          (let oldRule = PolicyRule.rule old
           in if ruleIsSame oldRule r then (None, s) else (Some RuleAlreadyExists, s))
      | None \<Rightarrow>
          (case compileRule cidr r of
             Inl err \<Rightarrow> (Some err, s)
           | Inr match \<Rightarrow>
               (case ofinvoke env (NewFlow match) s of
                  (Some err, s1) \<Rightarrow> (Some err, s1)
                | (None, s1) \<Rightarrow>
                    (case chainRule env r \<lparr>Match = match, NextElem = None\<rparr> s1 of
                       (Some err, ruleFlow, s2) \<Rightarrow> (Some err, s2)
                     | (None, ruleFlow, s2) \<Rightarrow>
                         (None, s2\<lparr>Rules :=
                                      AList.update (RuleId r)
                                        \<lparr>rule = r, flow = ruleFlow\<rparr> (Rules s2)\<rparr>)))))"

text \<open>\<^verbatim>\<open>DelRule\<close>, lines 322-342.  The error of \<^verbatim>\<open>Delete\<close> is logged only.\<close>

definition DelRule :: "ofenv \<Rightarrow> OfnetPolicyRule \<Rightarrow> PolicyAgent \<Rightarrow> error option \<times> PolicyAgent" where
  "DelRule env r s =
     (case map_of (Rules s) (RuleId r) of
        None \<Rightarrow> (Some RuleNotFound, s)
      | Some cache \<Rightarrow>
          (let s1 = snd (ofinvoke env (FlowDelete (flow cache)) s)
           in (None, s1\<lparr>Rules := AList.delete (RuleId r) (Rules s1)\<rparr>)))"

text \<open>The state \<^verbatim>\<open>NewPolicyAgent\<close> builds.\<close>

definition NewPolicyAgent :: PolicyAgent where
  "NewPolicyAgent = \<lparr>Rules = [], DstGrpFlow = [], ofcalls = []\<rparr>"

section \<open>Well-formed endpoint tables\<close>

text \<open>
  \<^verbatim>\<open>endpointDb\<close> is a map, so its keys are distinct, and every write to it
  (\<^verbatim>\<open>self.endpointDb[epreg.EndpointID] = epreg\<close> in \<^verbatim>\<open>EndpointAdd\<close>,
  \<^verbatim>\<open>self.endpointDb[epId] = epreg\<close> with \<^verbatim>\<open>EndpointID: epId\<close> in \<^verbatim>\<open>AddLocalEndpoint\<close>)
  files an endpoint under its own \<^verbatim>\<open>EndpointID\<close>.
\<close>

definition endpointDb_ok :: "OfnetAgent \<Rightarrow> bool" where
  "endpointDb_ok s \<longleftrightarrow>
     distinct (map fst (endpointDb s)) \<and>
     list_all (\<lambda>(key, endpoint). EndpointID endpoint = key) (endpointDb s)"

text \<open>The tables of the agent, without the record of outbound calls.\<close>

definition tables :: "OfnetAgent \<Rightarrow>
    (string, OfnetNode) gomap \<times> (32 word, 16 word) gomap \<times> (32 word, 16 word) gomap \<times>
    (16 word, 32 word) gomap \<times> (string, 32 word) gomap \<times> (string, OfnetEndpoint) gomap \<times>
    (32 word, OfnetEndpoint) gomap" where
  "tables s = (masterDb s, portVlanMap s, vniVlanMap s, vlanVniMap s, vtepTable s,
               endpointDb s, localEndpointDb s)"

text \<open>
  \<open>AddRule\<close> accepts the TCP flags of a rule with value \<open>f\<close> and mask \<open>fm\<close>: the rule
  compiles to a match that carries them, and the first thing the call does to the
  switch is to create the flow of that match.
\<close>

definition acceptsFlags :: "cidr_parser \<Rightarrow> ofenv \<Rightarrow> OfnetPolicyRule \<Rightarrow> PolicyAgent
    \<Rightarrow> 16 word \<Rightarrow> 16 word \<Rightarrow> bool" where
  "acceptsFlags cidr env r s f fm \<longleftrightarrow>
     (case compileRule cidr r of
        Inl err \<Rightarrow> False
      | Inr m \<Rightarrow>
          FlowMatch.TcpFlags m = Some f \<and> TcpFlagsMask m = Some fm \<and>
          take (Suc (length (ofcalls s))) (ofcalls (snd (AddRule cidr env r s))) =
            ofcalls s @ [NewFlow m])"

section \<open>Example states\<close>

text \<open>
  A host \<open>192.168.1.1\<close> with two masters, one VLAN, two peers with a tunnel port
  each, and one endpoint learnt from each peer.
\<close>

definition quiet :: env where
  "quiet s c = None"

definition masterDown :: env where
  "masterDown s c =
     (case c of
        RpcCall master method arg \<Rightarrow>
          if HostAddr master = ''192.168.1.11''
          then Some (ExternalError ''connection refused'') else None
      | _ \<Rightarrow> None)"

definition master1 :: OfnetNode where
  "master1 = \<lparr>HostAddr = ''192.168.1.10'', HostPort = 9001\<rparr>"

definition master2 :: OfnetNode where
  "master2 = \<lparr>HostAddr = ''192.168.1.11'', HostPort = 9001\<rparr>"

definition remoteEp5 :: OfnetEndpoint where
  "remoteEp5 =
     \<lparr>EndpointID = ''10.0.0.5'', EndpointType = ''internal'', EndpointGroup = 0,
      IpAddr = ''10.0.0.5'', VrfId = 0, MacAddrStr = ''02:02:0a:00:00:05'', Vlan = 1,
      Vni = 100, OriginatorIp = ''192.168.1.2'', PortNo = 4, Timestamp = 10\<rparr>"

definition remoteEp6 :: OfnetEndpoint where
  "remoteEp6 =
     \<lparr>EndpointID = ''10.0.0.6'', EndpointType = ''internal'', EndpointGroup = 0,
      IpAddr = ''10.0.0.6'', VrfId = 0, MacAddrStr = ''02:02:0a:00:00:06'', Vlan = 1,
      Vni = 100, OriginatorIp = ''192.168.1.3'', PortNo = 4, Timestamp = 10\<rparr>"

definition exampleAgent :: OfnetAgent where
  "exampleAgent =
     \<lparr>localIp = ''192.168.1.1'',
      masterDb = [(''192.168.1.10:9001'', master1), (''192.168.1.11:9001'', master2)],
      portVlanMap = [],
      vniVlanMap = [(100, 1)],
      vlanVniMap = [(1, 100)],
      vtepTable = [(''192.168.1.2'', 7), (''192.168.1.3'', 8)],
      endpointDb = [(''10.0.0.5'', remoteEp5), (''10.0.0.6'', remoteEp6)],
      localEndpointDb = [],
      calls = []\<rparr>"

text \<open>An endpoint of a peer \<open>192.168.1.4\<close> for which the host has no tunnel port.\<close>

definition strayEp :: OfnetEndpoint where
  "strayEp =
     \<lparr>EndpointID = ''10.0.0.7'', EndpointType = ''internal'', EndpointGroup = 0,
      IpAddr = ''10.0.0.7'', VrfId = 0, MacAddrStr = ''02:02:0a:00:00:07'', Vlan = 1,
      Vni = 100, OriginatorIp = ''192.168.1.4'', PortNo = 4, Timestamp = 10\<rparr>"

text \<open>
  Two local containers on port 3 of VLAN 1: one with a fresh address, one with the
  address of the endpoint learnt from the peer \<open>192.168.1.2\<close>.
\<close>

definition freshInfo :: EndpointInfo where
  "freshInfo =
     \<lparr>EndpointInfo.PortNo = 3, EndpointInfo.EndpointGroup = 0,
      MacAddr = ''02:02:0a:00:00:09'', EndpointInfo.Vlan = 1,
      EndpointInfo.IpAddr = ''10.0.0.9''\<rparr>"

definition clashInfo :: EndpointInfo where
  "clashInfo =
     \<lparr>EndpointInfo.PortNo = 3, EndpointInfo.EndpointGroup = 0,
      MacAddr = ''02:02:0a:00:00:09'', EndpointInfo.Vlan = 1,
      EndpointInfo.IpAddr = ''10.0.0.5''\<rparr>"

text \<open>
  The example state after an \<open>AddLocalEndpoint\<close> on port 3 that failed because its
  VLAN 2 is not mapped.
\<close>

definition staleAgent :: OfnetAgent where
  "staleAgent =
     snd (AddLocalEndpoint quiet 15 (freshInfo\<lparr>EndpointInfo.Vlan := 2\<rparr>) exampleAgent)"


text \<open>A switch that accepts every flow, and a CIDR parser that knows one network.\<close>

definition quietSwitch :: ofenv where
  "quietSwitch s c = None"

definition cidrTable :: cidr_parser where
  "cidrTable a =
     (if a = ''10.0.0.0/24'' then Inr (''10.0.0.0'', ''255.255.255.0'')
      else Inl (ExternalError ''invalid CIDR address''))"

definition denyRule :: OfnetPolicyRule where
  "denyRule =
     \<lparr>RuleId = ''r6'', Priority = 5, SrcEndpointGroup = 0, DstEndpointGroup = 42,
      SrcIpAddr = ''10.0.0.0/24'', DstIpAddr = '''', IpProtocol = 0, SrcPort = 0,
      DstPort = 0, TcpFlags = '''', Action = ''deny''\<rparr>"

definition synRule :: OfnetPolicyRule where
  "synRule =
     \<lparr>RuleId = ''r1'', Priority = 1, SrcEndpointGroup = 3, DstEndpointGroup = 42,
      SrcIpAddr = '''', DstIpAddr = '''', IpProtocol = 6, SrcPort = 0,
      DstPort = 80, TcpFlags = ''syn'', Action = ''accept''\<rparr>"

text \<open>The matches the two example rules compile to.\<close>

definition denyMatch :: FlowMatch where
  "denyMatch =
     \<lparr>FlowMatch.Priority = 15, Ethertype = 0x0800, IpDa = None, IpDaMask = None,
      IpSa = Some ''10.0.0.0'', IpSaMask = Some ''255.255.255.0'', IpProto = 0,
      TcpSrcPort = 0, TcpDstPort = 0, UdpSrcPort = 0, UdpDstPort = 0,
      Metadata = Some 0x54, MetadataMask = Some 0xfffe,
      FlowMatch.TcpFlags = None, TcpFlagsMask = None\<rparr>"

definition synMatch :: FlowMatch where
  "synMatch =
     \<lparr>FlowMatch.Priority = 11, Ethertype = 0x0800, IpDa = None, IpDaMask = None,
      IpSa = None, IpSaMask = None, IpProto = 6,
      TcpSrcPort = 0, TcpDstPort = 80, UdpSrcPort = 0, UdpDstPort = 80,
      Metadata = Some 0x30054, MetadataMask = Some 0x7ffffffe,
      FlowMatch.TcpFlags = Some 0x2, TcpFlagsMask = Some 0x2\<rparr>"

definition examplePolicy :: PolicyAgent where
  "examplePolicy = snd (AddRule cidrTable quietSwitch synRule NewPolicyAgent)"

section \<open>Properties\<close>

text \<open>The definitions a concrete run unfolds.\<close>

lemmas agent_examples =
  exampleAgent_def remoteEp5_def remoteEp6_def strayEp_def freshInfo_def clashInfo_def
  master1_def master2_def quiet_def masterDown_def

lemmas agent_ops =
  EndpointAdd_def EndpointDel_def AddLocalEndpoint_def RemoveLocalEndpoint_def
  AddVtepPort_def RemoveVtepPort_def AddVlan_def RemoveVlan_def uninstallIfRemote_def
  invoke_def buildEpreg_def getEndpointId_def Let_def

lemmas policy_examples =
  examplePolicy_def synRule_def denyRule_def denyMatch_def synMatch_def cidrTable_def
  quietSwitch_def NewPolicyAgent_def

lemmas policy_ops =
  AddRule_def compileRule_def chainRule_def parseIp_def groupMetadata_def tcpFlags_def
  ofinvoke_def ruleIsSame_def DstGroupMetadata_def SrcGroupMetadata_def
  FLOW_POLICY_PRIORITY_OFFSET_def TCP_FLAG_ACK_def TCP_FLAG_SYN_def Let_def

text \<open>
  The example state, its masters apart, is the state five operations build from
  the initial one.
\<close>

lemma exampleAgent_reached:
  "snd (EndpointAdd quiet remoteEp6
     (snd (EndpointAdd quiet remoteEp5
        (snd (AddVtepPort quiet 8 ''192.168.1.3''
           (snd (AddVtepPort quiet 7 ''192.168.1.2''
              (snd (AddVlan quiet 1 100 (NewOfnetAgent ''192.168.1.1'')))))))))) =
   exampleAgent\<lparr>masterDb := [],
     calls := [DpAddVlan 1 100, DpAddVtepPort 7 ''192.168.1.2'', DpAddVtepPort 8 ''192.168.1.3'',
               DpAddEndpoint remoteEp5, DpAddEndpoint remoteEp6]\<rparr>"
  by (simp add: agent_examples agent_ops NewOfnetAgent_def)

text \<open>
  Claim C10.  A duplicate VTEP add is a no-op: when the VTEP table already maps
  \<open>remoteIp\<close> to the same port number, \<open>AddVtepPort\<close> returns nil at once; the VTEP
  table, every other table and the record of outbound calls are unchanged, so the
  datapath's \<open>AddVtepPort\<close> has not been invoked.
\<close>

theorem AddVtepPort_duplicate:
  assumes "map_of (vtepTable s) remoteIp = Some portNo"
  shows "AddVtepPort env portNo remoteIp s = (None, s)"
  using assms by (simp add: AddVtepPort_def)

text \<open>The theorem at the example state.\<close>

theorem AddVtepPort_duplicate_witness:
  "AddVtepPort quiet 7 ''192.168.1.2'' exampleAgent = (None, exampleAgent)"
proof -
  have h: "map_of (vtepTable exampleAgent) ''192.168.1.2'' = Some 7"
    by (simp add: exampleAgent_def)
  show ?thesis using AddVtepPort_duplicate[OF h, where env = quiet] by simp
qed

subsection \<open>Removing a VTEP\<close>

lemma endpointDb_ok_lookup:
  "endpointDb_ok s \<Longrightarrow> (k, e) \<in> set (endpointDb s) \<Longrightarrow>
     map_of (endpointDb s) k = Some e \<and> EndpointID e = k"
  by (auto simp: endpointDb_ok_def list_all_iff)

lemma endpointDb_ok_delete:
  assumes "endpointDb_ok s" and "endpointDb s' = AList.delete k (endpointDb s)"
  shows "endpointDb_ok s'"
proof -
  have "distinct (map fst (endpointDb s'))"
    using assms by (simp add: endpointDb_ok_def distinct_delete)
  moreover have "set (endpointDb s') \<subseteq> set (endpointDb s)"
    using assms(2) by (auto simp: AList.delete_eq)
  ultimately show ?thesis
    using assms(1) by (auto simp: endpointDb_ok_def list_all_iff)
qed

lemma EndpointDel_endpointDb:
  "OriginatorIp e \<noteq> localIp s \<Longrightarrow>
   endpointDb (snd (EndpointDel env e s)) = AList.delete (EndpointID e) (endpointDb s)"
  by (simp add: EndpointDel_def invoke_def map_of_eq_None_iff)

lemma EndpointDel_calls:
  "calls (snd (EndpointDel env e s)) =
     calls s @ (if OriginatorIp e = localIp s \<or> map_of (endpointDb s) (EndpointID e) = None
                then [] else [DpRemoveEndpoint e])"
  by (simp add: EndpointDel_def invoke_def)

lemma uninstallIfRemote_localIp: "localIp (uninstallIfRemote env ip k s) = localIp s"
  by (simp add: uninstallIfRemote_def EndpointDel_def invoke_def split: option.splits)

lemma uninstallIfRemote_vtepTable: "vtepTable (uninstallIfRemote env ip k s) = vtepTable s"
  by (simp add: uninstallIfRemote_def EndpointDel_def invoke_def split: option.splits)

lemma uninstallIfRemote_endpointDb:
  assumes "endpointDb_ok s" and "ip \<noteq> localIp s"
  shows "endpointDb (uninstallIfRemote env ip k s) =
           (case map_of (endpointDb s) k of
              None \<Rightarrow> endpointDb s
            | Some e \<Rightarrow> if OriginatorIp e = ip then AList.delete k (endpointDb s)
                        else endpointDb s)"
proof (cases "map_of (endpointDb s) k")
  case None
  then show ?thesis by (simp add: uninstallIfRemote_def)
next
  case (Some e)
  then have "EndpointID e = k"
    using assms(1) endpointDb_ok_lookup map_of_SomeD by fastforce
  then show ?thesis
    using Some assms(2) by (simp add: uninstallIfRemote_def EndpointDel_endpointDb)
qed

lemma uninstallIfRemote_calls:
  assumes "endpointDb_ok s" and "ip \<noteq> localIp s"
  shows "calls (uninstallIfRemote env ip k s) =
           calls s @ (case map_of (endpointDb s) k of
                        None \<Rightarrow> []
                      | Some e \<Rightarrow> if OriginatorIp e = ip then [DpRemoveEndpoint e] else [])"
proof (cases "map_of (endpointDb s) k")
  case None
  then show ?thesis by (simp add: uninstallIfRemote_def)
next
  case (Some e)
  then have "EndpointID e = k"
    using assms(1) endpointDb_ok_lookup map_of_SomeD by fastforce
  then show ?thesis
    using Some assms(2) by (simp add: uninstallIfRemote_def EndpointDel_calls)
qed

lemma uninstallIfRemote_ok:
  assumes "endpointDb_ok s" and "ip \<noteq> localIp s"
  shows "endpointDb_ok (uninstallIfRemote env ip k s)"
proof -
  have "endpointDb (uninstallIfRemote env ip k s) = endpointDb s \<or>
        endpointDb (uninstallIfRemote env ip k s) = AList.delete k (endpointDb s)"
    unfolding uninstallIfRemote_endpointDb[OF assms] by (simp split: option.splits)
  then show ?thesis
    using assms(1) endpointDb_ok_delete by (auto simp: endpointDb_ok_def)
qed

lemma uninstallRemote_localIp: "localIp (uninstallRemote env ip xs s) = localIp s"
  by (induction xs arbitrary: s) (auto simp: uninstallIfRemote_localIp)

lemma uninstallRemote_vtepTable: "vtepTable (uninstallRemote env ip xs s) = vtepTable s"
  by (induction xs arbitrary: s) (auto simp: uninstallIfRemote_vtepTable)

lemma uninstallRemote_calls_mono:
  assumes "endpointDb_ok s" and "ip \<noteq> localIp s"
  shows "\<exists>ext. calls (uninstallRemote env ip xs s) = calls s @ ext"
  using assms
proof (induction xs arbitrary: s)
  case Nil
  then show ?case by simp
next
  case (Cons x xs)
  obtain k e where x: "x = (k, e)" by (cases x)
  let ?s1 = "uninstallIfRemote env ip k s"
  have "endpointDb_ok ?s1" and "ip \<noteq> localIp ?s1"
    using Cons.prems by (simp_all add: uninstallIfRemote_ok uninstallIfRemote_localIp)
  then obtain ext2 where "calls (uninstallRemote env ip xs ?s1) = calls ?s1 @ ext2"
    using Cons.IH by blast
  moreover obtain ext1 where "calls ?s1 = calls s @ ext1"
    using uninstallIfRemote_calls[OF Cons.prems] by blast
  ultimately show ?case by (simp add: x)
qed

lemma uninstallRemote_purges:
  assumes "endpointDb_ok s" and "ip \<noteq> localIp s"
    and "\<forall>(k, e) \<in> set (endpointDb s). OriginatorIp e = ip \<longrightarrow> k \<in> fst ` set xs"
  shows "\<forall>(k, e) \<in> set (endpointDb (uninstallRemote env ip xs s)). OriginatorIp e \<noteq> ip"
  using assms
proof (induction xs arbitrary: s)
  case Nil
  then show ?case by auto
next
  case (Cons x xs)
  obtain k0 e0 where x: "x = (k0, e0)" by (cases x)
  let ?s1 = "uninstallIfRemote env ip k0 s"
  have step: "uninstallRemote env ip (x # xs) s = uninstallRemote env ip xs ?s1"
    by (simp add: x)
  have ok1: "endpointDb_ok ?s1" and ip1: "ip \<noteq> localIp ?s1"
    using Cons.prems by (simp_all add: uninstallIfRemote_ok uninstallIfRemote_localIp)
  have db1: "endpointDb ?s1 =
           (case map_of (endpointDb s) k0 of
              None \<Rightarrow> endpointDb s
            | Some e \<Rightarrow> if OriginatorIp e = ip then AList.delete k0 (endpointDb s)
                        else endpointDb s)"
    by (rule uninstallIfRemote_endpointDb[OF Cons.prems(1,2)])
  have cover: "\<forall>(k, e) \<in> set (endpointDb ?s1). OriginatorIp e = ip \<longrightarrow> k \<in> fst ` set xs"
  proof -
    have "k \<in> fst ` set xs"
      if mem: "(k, e) \<in> set (endpointDb ?s1)" and o: "OriginatorIp e = ip" for k e
    proof -
    have sub: "set (endpointDb ?s1) \<subseteq> set (endpointDb s)"
      unfolding db1 by (auto split: option.splits simp: AList.delete_eq)
    with mem have mem0: "(k, e) \<in> set (endpointDb s)" by auto
    have lk: "map_of (endpointDb s) k = Some e"
      using mem0 Cons.prems(1) endpointDb_ok_lookup by blast
    have "k \<noteq> k0"
    proof
      assume "k = k0"
      then have "endpointDb ?s1 = AList.delete k (endpointDb s)"
        unfolding db1 using lk o by simp
      with mem show False by (auto simp: AList.delete_eq)
    qed
    moreover have "k \<in> fst ` set (x # xs)" using Cons.prems(3) mem0 o by auto
    ultimately show "k \<in> fst ` set xs" by (auto simp: x)
    qed
    then show ?thesis by auto
  qed
  show ?case unfolding step by (rule Cons.IH[OF ok1 ip1 cover])
qed

lemma uninstallRemote_uninstalls:
  assumes "endpointDb_ok s" and "ip \<noteq> localIp s" and "distinct (map fst xs)"
    and "(k, e) \<in> set xs" and "(k, e) \<in> set (endpointDb s)" and "OriginatorIp e = ip"
  shows "DpRemoveEndpoint e \<in> set (drop (length (calls s)) (calls (uninstallRemote env ip xs s)))"
  using assms
proof (induction xs arbitrary: s)
  case Nil
  then show ?case by simp
next
  case (Cons x xs)
  obtain k0 e0 where x: "x = (k0, e0)" by (cases x)
  let ?s1 = "uninstallIfRemote env ip k0 s"
  have step: "uninstallRemote env ip (x # xs) s = uninstallRemote env ip xs ?s1"
    by (simp add: x)
  have ok1: "endpointDb_ok ?s1" and ip1: "ip \<noteq> localIp ?s1"
    using Cons.prems by (simp_all add: uninstallIfRemote_ok uninstallIfRemote_localIp)
  have db1: "endpointDb ?s1 =
           (case map_of (endpointDb s) k0 of
              None \<Rightarrow> endpointDb s
            | Some e \<Rightarrow> if OriginatorIp e = ip then AList.delete k0 (endpointDb s)
                        else endpointDb s)"
    by (rule uninstallIfRemote_endpointDb[OF Cons.prems(1,2)])
  have calls1: "calls ?s1 =
           calls s @ (case map_of (endpointDb s) k0 of
                        None \<Rightarrow> []
                      | Some e \<Rightarrow> if OriginatorIp e = ip then [DpRemoveEndpoint e] else [])"
    by (rule uninstallIfRemote_calls[OF Cons.prems(1,2)])
  obtain ext2 where ext2: "calls (uninstallRemote env ip xs ?s1) = calls ?s1 @ ext2"
    using uninstallRemote_calls_mono[OF ok1 ip1] by blast
  have lk: "map_of (endpointDb s) k = Some e"
    using Cons.prems(1,5) endpointDb_ok_lookup by blast
  show ?case
  proof (cases "k = k0")
    case True
    then have "calls ?s1 = calls s @ [DpRemoveEndpoint e]"
      unfolding calls1 using lk Cons.prems(6) by simp
    then show ?thesis unfolding step using ext2 by simp
  next
    case False
    have inxs: "(k, e) \<in> set xs" using Cons.prems(4) False by (auto simp: x)
    have d: "distinct (map fst xs)" using Cons.prems(3) by simp
    have stillthere: "(k, e) \<in> set (endpointDb ?s1)"
      unfolding db1 using Cons.prems(5) False
      by (auto split: option.splits simp: AList.delete_eq)
    from Cons.IH[OF ok1 ip1 d inxs stillthere Cons.prems(6)]
    have "DpRemoveEndpoint e \<in> set (drop (length (calls ?s1)) (calls (uninstallRemote env ip xs ?s1)))" .
    then have "DpRemoveEndpoint e \<in> set ext2" using ext2 by simp
    moreover obtain ext1 where "calls ?s1 = calls s @ ext1" using calls1 by blast
    ultimately show ?thesis unfolding step using ext2 by simp
  qed
qed

text \<open>
  Claim C7.  In a state whose endpoint table is well formed, after
  \<open>RemoveVtepPort portNo remoteIp\<close> with \<open>remoteIp\<close> different from the agent's own IP:
  no endpoint whose \<open>OriginatorIp\<close> is \<open>remoteIp\<close> remains in the endpoint table; for
  each such endpoint of the table the datapath's \<open>RemoveEndpoint\<close> was invoked during
  the call; and \<open>remoteIp\<close> is not a key of the VTEP table.
\<close>

theorem RemoveVtepPort_purges:
  assumes "remoteIp \<noteq> localIp s" and "endpointDb_ok s"
  shows "(\<forall>(k, e) \<in> set (endpointDb (snd (RemoveVtepPort env portNo remoteIp s))).
            OriginatorIp e \<noteq> remoteIp) \<and>
         (\<forall>(k, e) \<in> set (endpointDb s). OriginatorIp e = remoteIp \<longrightarrow>
            DpRemoveEndpoint e \<in>
              set (drop (length (calls s)) (calls (snd (RemoveVtepPort env portNo remoteIp s))))) \<and>
         remoteIp \<notin> fst ` set (vtepTable (snd (RemoveVtepPort env portNo remoteIp s)))"
proof -
  define s1 where "s1 = s\<lparr>vtepTable := AList.delete remoteIp (vtepTable s)\<rparr>"
  define s2 where "s2 = uninstallRemote env remoteIp (endpointDb s1) s1"
  have res: "snd (RemoveVtepPort env portNo remoteIp s) = s2\<lparr>calls := calls s2 @ [DpRemoveVtepPort portNo remoteIp]\<rparr>"
    by (simp add: RemoveVtepPort_def invoke_def Let_def s1_def s2_def)
  have ok1: "endpointDb_ok s1" using assms(2) by (simp add: endpointDb_ok_def s1_def)
  have ip1: "remoteIp \<noteq> localIp s1" using assms(1) by (simp add: s1_def)
  have db1: "endpointDb s1 = endpointDb s" and c1: "calls s1 = calls s" by (simp_all add: s1_def)
  have A: "\<forall>(k, e) \<in> set (endpointDb s2). OriginatorIp e \<noteq> remoteIp"
    unfolding s2_def by (rule uninstallRemote_purges[OF ok1 ip1]) force
  have B: "\<forall>(k, e) \<in> set (endpointDb s). OriginatorIp e = remoteIp \<longrightarrow>
            DpRemoveEndpoint e \<in> set (drop (length (calls s)) (calls s2))"
  proof -
    have d: "distinct (map fst (endpointDb s1))" using ok1 by (simp add: endpointDb_ok_def)
    have "DpRemoveEndpoint e \<in> set (drop (length (calls s)) (calls s2))"
      if m: "(k, e) \<in> set (endpointDb s)" and o: "OriginatorIp e = remoteIp" for k e
      using uninstallRemote_uninstalls[OF ok1 ip1 d, of k e env] m o
      by (simp add: db1 c1 s2_def)
    then show ?thesis by auto
  qed
  have C: "remoteIp \<notin> fst ` set (vtepTable s2)"
    by (simp add: s2_def s1_def uninstallRemote_vtepTable delete_notin_dom)
  obtain ext where "calls s2 = calls s @ ext"
    using uninstallRemote_calls_mono[OF ok1 ip1] c1 s2_def by metis
  then show ?thesis unfolding res using A B C by auto
qed

text \<open>The theorem at the example state.\<close>

theorem RemoveVtepPort_purges_witness:
  "endpointDb (snd (RemoveVtepPort quiet 7 ''192.168.1.2'' exampleAgent)) =
     [(''10.0.0.6'', remoteEp6)] \<and>
   calls (snd (RemoveVtepPort quiet 7 ''192.168.1.2'' exampleAgent)) =
     [DpRemoveEndpoint remoteEp5, DpRemoveVtepPort 7 ''192.168.1.2''] \<and>
   vtepTable (snd (RemoveVtepPort quiet 7 ''192.168.1.2'' exampleAgent)) =
     [(''192.168.1.3'', 8)]"
proof -
  have h1: "''192.168.1.2'' \<noteq> localIp exampleAgent"
    by (simp add: exampleAgent_def)
  have h2: "endpointDb_ok exampleAgent"
    by (simp add: endpointDb_ok_def agent_examples)
  show ?thesis
    using RemoveVtepPort_purges[OF h1 h2, where env = quiet and portNo = 7]
    by (simp add: agent_examples agent_ops)
qed

subsection \<open>Adding and removing endpoints\<close>

lemma announceAdd_tables: "tables (snd (announceAdd env e ms s)) = tables s"
  by (induction ms arbitrary: s) (auto simp: invoke_def tables_def split: option.splits)

lemma announceDel_tables: "tables (announceDel env e ms s) = tables s"
  by (induction ms arbitrary: s) (auto simp: invoke_def tables_def)

lemma announceAdd_fails:
  assumes "(key, master) \<in> set ms"
    and "\<forall>st. env st (RpcCall master ''OfnetMaster.EndpointAdd'' (ArgEndpoint e)) \<noteq> None"
  shows "\<exists>m st err. m \<in> snd ` set ms \<and>
           env st (RpcCall m ''OfnetMaster.EndpointAdd'' (ArgEndpoint e)) = Some err \<and>
           fst (announceAdd env e ms s) = Some err"
  using assms
proof (induction ms arbitrary: s)
  case Nil
  then show ?case by simp
next
  case (Cons x ms)
  obtain k m where x: "x = (k, m)" by (cases x)
  show ?case
  proof (cases "env s (RpcCall m ''OfnetMaster.EndpointAdd'' (ArgEndpoint e))")
    case (Some err)
    then have "fst (announceAdd env e (x # ms) s) = Some err"
      by (simp add: x invoke_def)
    with Some show ?thesis unfolding x by force
  next
    case None
    have "master \<noteq> m" using Cons.prems(2)[rule_format, of s] None by auto
    then have neq: "(key, master) \<in> set ms" using Cons.prems(1) x by auto
    let ?s1 = "s\<lparr>calls := calls s @ [RpcCall m ''OfnetMaster.EndpointAdd'' (ArgEndpoint e)]\<rparr>"
    have step: "announceAdd env e (x # ms) s = announceAdd env e ms ?s1"
      using None by (simp add: x invoke_def)
    from Cons.IH[OF neq Cons.prems(2), of ?s1]
    obtain m' st err where "m' \<in> snd ` set ms"
      "env st (RpcCall m' ''OfnetMaster.EndpointAdd'' (ArgEndpoint e)) = Some err"
      "fst (announceAdd env e ms ?s1) = Some err"
      by blast
    then have "m' \<in> snd ` set (x # ms) \<and>
      env st (RpcCall m' ''OfnetMaster.EndpointAdd'' (ArgEndpoint e)) = Some err \<and>
      fst (announceAdd env e (x # ms) s) = Some err"
      unfolding step by simp
    then show ?thesis by blast
  qed
qed

text \<open>
  Claim C1.  Last writer wins for remote endpoint adds.  Let \<open>EndpointAdd\<close> be called
  with an endpoint whose \<open>OriginatorIp\<close> is not the agent's, while the endpoint table
  holds an endpoint \<open>oldEp\<close> under the same \<open>EndpointID\<close>.  If the timestamp of
  \<open>oldEp\<close> is equal or newer, the call returns nil and the state is unchanged: the old
  endpoint stays and no outbound call is made.  If the new timestamp is strictly
  newer, the first outbound call of the operation is the datapath's \<open>RemoveEndpoint\<close>
  of \<open>oldEp\<close> and the new endpoint replaces it in the endpoint table.
\<close>

theorem EndpointAdd_last_writer_wins:
  assumes "OriginatorIp epreg \<noteq> localIp s"
    and "map_of (endpointDb s) (EndpointID epreg) = Some oldEp"
  shows "(Timestamp epreg \<le> Timestamp oldEp \<longrightarrow> EndpointAdd env epreg s = (None, s)) \<and>
         (Timestamp oldEp < Timestamp epreg \<longrightarrow>
            endpointDb (snd (EndpointAdd env epreg s)) =
              AList.update (EndpointID epreg) epreg (endpointDb s) \<and>
            map_of (endpointDb (snd (EndpointAdd env epreg s))) (EndpointID epreg) = Some epreg \<and>
            calls (snd (EndpointAdd env epreg s)) =
              calls s @ DpRemoveEndpoint oldEp #
                (case map_of (vtepTable s) (OriginatorIp epreg) of
                   None \<Rightarrow> []
                 | Some vtepPort \<Rightarrow> [DpAddEndpoint epreg]))"
  using assms
  by (auto simp: EndpointAdd_def invoke_def Let_def update_conv' split: option.splits)

text \<open>The theorem at the example state.\<close>

theorem EndpointAdd_last_writer_wins_witness:
  "EndpointAdd quiet (remoteEp5\<lparr>Timestamp := 5\<rparr>) exampleAgent = (None, exampleAgent) \<and>
   EndpointAdd quiet remoteEp5 exampleAgent = (None, exampleAgent) \<and>
   endpointDb (snd (EndpointAdd quiet (remoteEp5\<lparr>Timestamp := 20\<rparr>) exampleAgent)) =
     [(''10.0.0.5'', remoteEp5\<lparr>Timestamp := 20\<rparr>), (''10.0.0.6'', remoteEp6)] \<and>
   calls (snd (EndpointAdd quiet (remoteEp5\<lparr>Timestamp := 20\<rparr>) exampleAgent)) =
     [DpRemoveEndpoint remoteEp5, DpAddEndpoint (remoteEp5\<lparr>Timestamp := 20\<rparr>)]"
proof -
  have h1: "OriginatorIp (remoteEp5\<lparr>Timestamp := t\<rparr>) \<noteq> localIp exampleAgent" for t
    by (simp add: agent_examples)
  have h2: "map_of (endpointDb exampleAgent) (EndpointID (remoteEp5\<lparr>Timestamp := t\<rparr>)) =
              Some remoteEp5" for t
    by (simp add: agent_examples)
  have older: "EndpointAdd quiet (remoteEp5\<lparr>Timestamp := 5\<rparr>) exampleAgent = (None, exampleAgent)"
    using EndpointAdd_last_writer_wins[OF h1 h2, of 5 quiet] by (simp add: remoteEp5_def)
  have equal: "EndpointAdd quiet remoteEp5 exampleAgent = (None, exampleAgent)"
    using EndpointAdd_last_writer_wins[OF h1 h2, of 10 quiet] by (simp add: remoteEp5_def)
  have newer: "endpointDb (snd (EndpointAdd quiet (remoteEp5\<lparr>Timestamp := 20\<rparr>) exampleAgent)) =
      [(''10.0.0.5'', remoteEp5\<lparr>Timestamp := 20\<rparr>), (''10.0.0.6'', remoteEp6)] \<and>
    calls (snd (EndpointAdd quiet (remoteEp5\<lparr>Timestamp := 20\<rparr>) exampleAgent)) =
      [DpRemoveEndpoint remoteEp5, DpAddEndpoint (remoteEp5\<lparr>Timestamp := 20\<rparr>)]"
    using EndpointAdd_last_writer_wins[OF h1 h2, of 20 quiet] by (simp add: agent_examples)
  show ?thesis using older equal newer by simp
qed

text \<open>
  Claim C2, as amended.  Let \<open>EndpointAdd\<close> be called with an endpoint whose
  \<open>OriginatorIp\<close> is not the agent's and is not a key of the VTEP table, and let every
  endpoint the table holds under the same \<open>EndpointID\<close> be strictly older.  Then
  the call fails with \<open>VtepNotFound\<close> and the installation in the datapath is
  refused: the datapath's \<open>AddEndpoint\<close> is not invoked.  Hence \<open>EndpointAdd\<close> invokes
  the datapath's \<open>AddEndpoint\<close> only for the endpoint it was given, and only when
  that endpoint is not local and its \<open>OriginatorIp\<close> is a key of the VTEP table.
\<close>

theorem EndpointAdd_unknown_vtep:
  "(OriginatorIp epreg \<noteq> localIp s \<and>
    map_of (vtepTable s) (OriginatorIp epreg) = None \<and>
    (\<forall>oldEp. map_of (endpointDb s) (EndpointID epreg) = Some oldEp \<longrightarrow>
       Timestamp oldEp < Timestamp epreg) \<longrightarrow>
      fst (EndpointAdd env epreg s) = Some VtepNotFound \<and>
      (\<forall>e. DpAddEndpoint e \<notin>
             set (drop (length (calls s)) (calls (snd (EndpointAdd env epreg s)))))) \<and>
   (DpAddEndpoint e' \<in> set (drop (length (calls s)) (calls (snd (EndpointAdd env epreg s)))) \<longrightarrow>
      e' = epreg \<and> OriginatorIp epreg \<noteq> localIp s \<and>
      map_of (vtepTable s) (OriginatorIp epreg) \<noteq> None)"
  by (auto simp: EndpointAdd_def invoke_def Let_def split: option.splits if_splits)

text \<open>The theorem at the example state.\<close>

theorem EndpointAdd_unknown_vtep_witness:
  "fst (EndpointAdd quiet strayEp exampleAgent) = Some VtepNotFound \<and>
   calls (snd (EndpointAdd quiet strayEp exampleAgent)) = [] \<and>
   calls (snd (EndpointAdd quiet (remoteEp5\<lparr>Timestamp := 20\<rparr>) exampleAgent)) =
     [DpRemoveEndpoint remoteEp5, DpAddEndpoint (remoteEp5\<lparr>Timestamp := 20\<rparr>)] \<and>
   map_of (vtepTable exampleAgent) (OriginatorIp (remoteEp5\<lparr>Timestamp := 20\<rparr>)) = Some 7"
proof -
  have h1: "OriginatorIp strayEp \<noteq> localIp exampleAgent"
    by (simp add: agent_examples)
  have h2: "map_of (vtepTable exampleAgent) (OriginatorIp strayEp) = None"
    by (simp add: agent_examples)
  have h3: "\<forall>oldEp. map_of (endpointDb exampleAgent) (EndpointID strayEp) = Some oldEp \<longrightarrow>
              Timestamp oldEp < Timestamp strayEp"
    by (simp add: agent_examples)
  have c1: "calls (snd (EndpointAdd quiet strayEp exampleAgent)) = []"
    by (simp add: agent_examples agent_ops)
  have c2: "calls (snd (EndpointAdd quiet (remoteEp5\<lparr>Timestamp := 20\<rparr>) exampleAgent)) =
     [DpRemoveEndpoint remoteEp5, DpAddEndpoint (remoteEp5\<lparr>Timestamp := 20\<rparr>)]"
    by (simp add: agent_examples agent_ops)
  then have h4: "DpAddEndpoint (remoteEp5\<lparr>Timestamp := 20\<rparr>) \<in>
      set (drop (length (calls exampleAgent))
             (calls (snd (EndpointAdd quiet (remoteEp5\<lparr>Timestamp := 20\<rparr>) exampleAgent))))"
    by (simp add: exampleAgent_def)
  have "fst (EndpointAdd quiet strayEp exampleAgent) = Some VtepNotFound"
    using EndpointAdd_unknown_vtep[of strayEp exampleAgent quiet] h1 h2 h3 by blast
  moreover have "map_of (vtepTable exampleAgent) (OriginatorIp (remoteEp5\<lparr>Timestamp := 20\<rparr>)) = Some 7"
    using EndpointAdd_unknown_vtep[of "remoteEp5\<lparr>Timestamp := 20\<rparr>" exampleAgent quiet
        "remoteEp5\<lparr>Timestamp := 20\<rparr>"] h4
    by (simp add: agent_examples)
  ultimately show ?thesis using c1 c2 by simp
qed

text \<open>
  The claim without the amendment fails at the example state.  The peer of \<open>strayEp\<close> has no
  entry in the VTEP table; the call fails with \<open>VtepNotFound\<close>, and yet the endpoint
  table afterwards holds \<open>strayEp\<close>, a non-local endpoint whose VTEP is absent.  A
  second call with the same endpoint, the VTEP still unknown, returns nil.
\<close>

theorem EndpointAdd_unknown_vtep_counterexample:
  "OriginatorIp strayEp \<noteq> localIp exampleAgent \<and>
   map_of (vtepTable exampleAgent) (OriginatorIp strayEp) = None \<and>
   fst (EndpointAdd quiet strayEp exampleAgent) = Some VtepNotFound \<and>
   map_of (endpointDb (snd (EndpointAdd quiet strayEp exampleAgent))) (EndpointID strayEp) =
     Some strayEp \<and>
   map_of (vtepTable (snd (EndpointAdd quiet strayEp exampleAgent))) (OriginatorIp strayEp) = None \<and>
   fst (EndpointAdd quiet strayEp (snd (EndpointAdd quiet strayEp exampleAgent))) = None"
  by (simp add: agent_examples agent_ops)




text \<open>
  Claim C5.  No rollback of the local install.  Let the VLAN of \<open>info\<close> be mapped to
  \<open>vni\<close>, let the datapath's \<open>AddLocalEndpoint\<close> succeed for the endpoint \<open>epreg\<close>
  built from \<open>info\<close>, and let the \<^verbatim>\<open>OfnetMaster.EndpointAdd\<close> RPC to some master of the
  master table fail.  Then \<open>AddLocalEndpoint\<close> returns the error of a failed
  \<^verbatim>\<open>OfnetMaster.EndpointAdd\<close> RPC to a known master, and \<open>epreg\<close> is in the endpoint table
  under its \<open>EndpointID\<close> and in the local endpoint table under its port.
\<close>

theorem AddLocalEndpoint_no_rollback:
  assumes "map_of (vlanVniMap s) (EndpointInfo.Vlan info) = Some vni"
    and "epreg = buildEpreg (localIp s) now vni info"
    and "env (s\<lparr>portVlanMap := AList.update (EndpointInfo.PortNo info) (EndpointInfo.Vlan info)
                                (portVlanMap s)\<rparr>) (DpAddLocalEndpoint epreg) = None"
    and "(key, master) \<in> set (masterDb s)"
    and "\<forall>st. env st (RpcCall master ''OfnetMaster.EndpointAdd'' (ArgEndpoint epreg)) \<noteq> None"
  shows "(\<exists>m st err. m \<in> snd ` set (masterDb s) \<and>
            env st (RpcCall m ''OfnetMaster.EndpointAdd'' (ArgEndpoint epreg)) = Some err \<and>
            fst (AddLocalEndpoint env now info s) = Some err) \<and>
         map_of (endpointDb (snd (AddLocalEndpoint env now info s))) (EndpointID epreg) = Some epreg \<and>
         map_of (localEndpointDb (snd (AddLocalEndpoint env now info s))) (EndpointInfo.PortNo info)
           = Some epreg"
proof -
  define s3 where "s3 = s\<lparr>portVlanMap := AList.update (EndpointInfo.PortNo info) (EndpointInfo.Vlan info) (portVlanMap s),
       calls := calls s @ [DpAddLocalEndpoint epreg],
       endpointDb := AList.update (getEndpointId info) epreg (endpointDb s),
       localEndpointDb := AList.update (EndpointInfo.PortNo info) epreg (localEndpointDb s)\<rparr>"
  have run: "AddLocalEndpoint env now info s = announceAdd env epreg (masterDb s) s3"
    using assms(1,2,3) by (simp add: AddLocalEndpoint_def invoke_def Let_def s3_def)
  have id: "EndpointID epreg = getEndpointId info" by (simp add: assms(2) buildEpreg_def)
  have "tables (snd (announceAdd env epreg (masterDb s) s3)) = tables s3"
    by (rule announceAdd_tables)
  then have "endpointDb (snd (AddLocalEndpoint env now info s)) = endpointDb s3"
    and "localEndpointDb (snd (AddLocalEndpoint env now info s)) = localEndpointDb s3"
    by (simp_all add: run tables_def)
  then have "map_of (endpointDb (snd (AddLocalEndpoint env now info s))) (EndpointID epreg) = Some epreg"
    and "map_of (localEndpointDb (snd (AddLocalEndpoint env now info s))) (EndpointInfo.PortNo info) = Some epreg"
    by (simp_all add: s3_def id update_conv')
  moreover have "\<exists>m st err. m \<in> snd ` set (masterDb s) \<and>
            env st (RpcCall m ''OfnetMaster.EndpointAdd'' (ArgEndpoint epreg)) = Some err \<and>
            fst (AddLocalEndpoint env now info s) = Some err"
    unfolding run
    using announceAdd_fails[where ms = "masterDb s" and s = s3 and env = env and e = epreg]
      assms(4,5) by blast
  ultimately show ?thesis by blast
qed

text \<open>The theorem at the example state.\<close>

theorem AddLocalEndpoint_no_rollback_witness:
  "fst (AddLocalEndpoint masterDown 20 freshInfo exampleAgent) =
     Some (ExternalError ''connection refused'') \<and>
   map_of (endpointDb (snd (AddLocalEndpoint masterDown 20 freshInfo exampleAgent))) ''10.0.0.9'' =
     Some (buildEpreg ''192.168.1.1'' 20 100 freshInfo) \<and>
   map_of (localEndpointDb (snd (AddLocalEndpoint masterDown 20 freshInfo exampleAgent))) 3 =
     Some (buildEpreg ''192.168.1.1'' 20 100 freshInfo)"
proof -
  have h1: "map_of (vlanVniMap exampleAgent) (EndpointInfo.Vlan freshInfo) = Some 100"
    by (simp add: agent_examples)
  have h2: "buildEpreg ''192.168.1.1'' 20 100 freshInfo =
              buildEpreg (localIp exampleAgent) 20 100 freshInfo"
    by (simp add: agent_examples)
  have h3: "masterDown (exampleAgent\<lparr>portVlanMap :=
                AList.update (EndpointInfo.PortNo freshInfo) (EndpointInfo.Vlan freshInfo)
                  (portVlanMap exampleAgent)\<rparr>)
              (DpAddLocalEndpoint (buildEpreg ''192.168.1.1'' 20 100 freshInfo)) = None"
    by (simp add: masterDown_def)
  have h4: "(''192.168.1.11:9001'', master2) \<in> set (masterDb exampleAgent)"
    by (simp add: agent_examples)
  have h5: "\<forall>st. masterDown st (RpcCall master2 ''OfnetMaster.EndpointAdd''
                    (ArgEndpoint (buildEpreg ''192.168.1.1'' 20 100 freshInfo))) \<noteq> None"
    by (simp add: agent_examples)
  have "fst (AddLocalEndpoint masterDown 20 freshInfo exampleAgent) =
     Some (ExternalError ''connection refused'')"
    by (simp add: agent_examples agent_ops)
  then show ?thesis
    using AddLocalEndpoint_no_rollback[OF h1 h2 h3 h4 h5]
    by (simp add: buildEpreg_def getEndpointId_def freshInfo_def)
qed

text \<open>
  Claim C6, as amended.  Let the VLAN of \<open>info\<close> be a key of the VLAN-to-VNI map, let
  the port of \<open>info\<close> be a key neither of the local endpoint table nor of the
  port-to-VLAN map, and let the endpoint identifier of \<open>info\<close> not be a key of the
  endpoint table.  Then \<open>AddLocalEndpoint info\<close> followed by \<open>RemoveLocalEndpoint\<close> of
  the port of \<open>info\<close> leaves every table of the agent as it was before the add,
  whatever the datapath and the masters answer.
\<close>

theorem add_remove_roundtrip:
  assumes "map_of (vlanVniMap s) (EndpointInfo.Vlan info) \<noteq> None"
    and "EndpointInfo.PortNo info \<notin> fst ` set (localEndpointDb s)"
    and "EndpointInfo.PortNo info \<notin> fst ` set (portVlanMap s)"
    and "getEndpointId info \<notin> fst ` set (endpointDb s)"
  shows "tables (snd (RemoveLocalEndpoint env' (EndpointInfo.PortNo info)
                        (snd (AddLocalEndpoint env now info s)))) = tables s"
proof -
  obtain vni where vni: "map_of (vlanVniMap s) (EndpointInfo.Vlan info) = Some vni"
    using assms(1) by blast
  define epreg where "epreg = buildEpreg (localIp s) now vni info"
  have id: "EndpointID epreg = getEndpointId info" by (simp add: epreg_def buildEpreg_def)
  define s1 where "s1 = s\<lparr>portVlanMap := AList.update (EndpointInfo.PortNo info) (EndpointInfo.Vlan info) (portVlanMap s)\<rparr>"
  have none: "map_of (localEndpointDb s) (EndpointInfo.PortNo info) = None"
    using assms(2) by (simp add: map_of_eq_None_iff)
  show ?thesis
  proof (cases "env s1 (DpAddLocalEndpoint epreg)")
    case (Some err)
    then have "snd (AddLocalEndpoint env now info s) = s1\<lparr>calls := calls s @ [DpAddLocalEndpoint epreg]\<rparr>"
      using vni by (simp add: AddLocalEndpoint_def invoke_def Let_def s1_def epreg_def)
    then show ?thesis using none assms(3)
      by (simp add: RemoveLocalEndpoint_def Let_def s1_def tables_def delete_update_same)
  next
    case None
    define s3 where "s3 = s1\<lparr>calls := calls s @ [DpAddLocalEndpoint epreg],
       endpointDb := AList.update (getEndpointId info) epreg (endpointDb s),
       localEndpointDb := AList.update (EndpointInfo.PortNo info) epreg (localEndpointDb s)\<rparr>"
    define s4 where "s4 = snd (announceAdd env epreg (masterDb s) s3)"
    have run: "snd (AddLocalEndpoint env now info s) = s4"
      using vni None by (simp add: AddLocalEndpoint_def invoke_def Let_def s1_def s3_def s4_def epreg_def)
    have t4: "tables s4 = tables s3" unfolding s4_def by (rule announceAdd_tables)
    then have lk: "map_of (localEndpointDb s4) (EndpointInfo.PortNo info) = Some epreg"
      by (simp add: tables_def s3_def update_conv')
    define s5 where "s5 = s4\<lparr>portVlanMap := AList.delete (EndpointInfo.PortNo info) (portVlanMap s4),
         calls := calls s4 @ [DpRemoveLocalEndpoint epreg],
         endpointDb := AList.delete (EndpointID epreg) (endpointDb s4),
         localEndpointDb := AList.delete (EndpointInfo.PortNo info) (localEndpointDb s4)\<rparr>"
    have "snd (RemoveLocalEndpoint env' (EndpointInfo.PortNo info) s4) =
            announceDel env' epreg (masterDb s5) s5"
      using lk by (simp add: RemoveLocalEndpoint_def invoke_def Let_def s5_def)
    then have "tables (snd (RemoveLocalEndpoint env' (EndpointInfo.PortNo info) s4)) = tables s5"
      by (simp add: announceDel_tables)
    also have "\<dots> = tables s"
      using t4 assms(2,3,4)
      by (simp add: tables_def s5_def s3_def s1_def id delete_update_same)
    finally show ?thesis by (simp add: run)
  qed
qed

text \<open>The theorem at the example state.\<close>

theorem add_remove_roundtrip_witness:
  "tables (snd (RemoveLocalEndpoint quiet 3
                  (snd (AddLocalEndpoint masterDown 20 freshInfo exampleAgent)))) =
     tables exampleAgent"
proof -
  have h1: "map_of (vlanVniMap exampleAgent) (EndpointInfo.Vlan freshInfo) \<noteq> None"
    by (simp add: agent_examples)
  have h2: "EndpointInfo.PortNo freshInfo \<notin> fst ` set (localEndpointDb exampleAgent)"
    by (simp add: agent_examples)
  have h3: "EndpointInfo.PortNo freshInfo \<notin> fst ` set (portVlanMap exampleAgent)"
    by (simp add: agent_examples)
  have h4: "getEndpointId freshInfo \<notin> fst ` set (endpointDb exampleAgent)"
    by (simp add: agent_examples getEndpointId_def)
  show ?thesis
    using add_remove_roundtrip[OF h1 h2 h3 h4, of quiet masterDown 20]
    by (simp add: freshInfo_def)
qed

text \<open>
  The claim without the amendment fails at the example state.  Port 3 is free and VLAN 1
  is mapped, but the endpoint table holds an endpoint learnt from a peer under the
  address of \<open>clashInfo\<close>: the add overwrites it and the remove deletes the entry, so
  the endpoint table does not return to its value before the add.  It fails as
  well in \<open>staleAgent\<close>, where port 3 holds no endpoint but has an entry in the
  port-to-VLAN map, left by an add that failed: the round trip deletes the entry.
\<close>

theorem add_remove_roundtrip_counterexample:
  "map_of (vlanVniMap exampleAgent) (EndpointInfo.Vlan clashInfo) = Some 100 \<and>
   map_of (localEndpointDb exampleAgent) (EndpointInfo.PortNo clashInfo) = None \<and>
   map_of (portVlanMap exampleAgent) (EndpointInfo.PortNo clashInfo) = None \<and>
   map_of (endpointDb exampleAgent) ''10.0.0.5'' = Some remoteEp5 \<and>
   map_of (endpointDb (snd (RemoveLocalEndpoint quiet (EndpointInfo.PortNo clashInfo)
                              (snd (AddLocalEndpoint quiet 20 clashInfo exampleAgent)))))
     ''10.0.0.5'' = None \<and>
   fst (AddLocalEndpoint quiet 15 (freshInfo\<lparr>EndpointInfo.Vlan := 2\<rparr>) exampleAgent) =
     Some UnknownVlan \<and>
   map_of (localEndpointDb staleAgent) (EndpointInfo.PortNo freshInfo) = None \<and>
   map_of (portVlanMap staleAgent) (EndpointInfo.PortNo freshInfo) = Some 2 \<and>
   map_of (portVlanMap (snd (RemoveLocalEndpoint quiet (EndpointInfo.PortNo freshInfo)
                               (snd (AddLocalEndpoint quiet 20 freshInfo staleAgent)))))
     (EndpointInfo.PortNo freshInfo) = None"
  by (simp add: agent_examples agent_ops staleAgent_def)

subsection \<open>Policy rules\<close>

lemma chainRule_calls:
  "\<exists>ext. ofcalls (snd (snd (chainRule env r f s))) = ofcalls s @ ext \<and>
         (\<forall>m. NewFlow m \<notin> set ext)"
  by (auto simp: chainRule_def ofinvoke_def)

lemma AddRule_calls_compiled:
  assumes None: "map_of (Rules s) (RuleId r) = None" and Inr: "compileRule cidr r = Inr m"
  shows "\<exists>ext. ofcalls (snd (AddRule cidr env r s)) = ofcalls s @ NewFlow m # ext \<and>
           (\<forall>m'. NewFlow m' \<notin> set ext)"
proof (cases "env s (NewFlow m)")
  case (Some err)
  then have "ofcalls (snd (AddRule cidr env r s)) = ofcalls s @ NewFlow m # []"
    using None Inr by (simp add: AddRule_def ofinvoke_def)
  then show ?thesis by force
next
  case NoErr: None
  define s1 where "s1 = s\<lparr>ofcalls := ofcalls s @ [NewFlow m]\<rparr>"
  obtain e2 f2 s2 where ch: "chainRule env r \<lparr>Match = m, NextElem = None\<rparr> s1 = (e2, f2, s2)"
    by (metis prod_cases3)
  obtain ext where ext: "ofcalls s2 = ofcalls s1 @ ext" "\<forall>m. NewFlow m \<notin> set ext"
    using chainRule_calls[of env r "\<lparr>Match = m, NextElem = None\<rparr>" s1] ch by auto
  have "ofcalls (snd (AddRule cidr env r s)) = ofcalls s2"
    using None Inr NoErr ch
    by (cases e2) (simp_all add: AddRule_def ofinvoke_def s1_def)
  then have "ofcalls (snd (AddRule cidr env r s)) = ofcalls s @ NewFlow m # ext"
    using ext(1) by (simp add: s1_def)
  then show ?thesis using ext(2) by force
qed

lemma AddRule_calls:
  "ofcalls (snd (AddRule cidr env r s)) = ofcalls s \<or>
   (\<exists>m ext. map_of (Rules s) (RuleId r) = None \<and> compileRule cidr r = Inr m \<and>
       ofcalls (snd (AddRule cidr env r s)) = ofcalls s @ NewFlow m # ext \<and>
       (\<forall>m'. NewFlow m' \<notin> set ext))"
proof (cases "map_of (Rules s) (RuleId r)")
  case (Some old)
  then show ?thesis by (simp add: AddRule_def Let_def)
next
  case None
  show ?thesis
  proof (cases "compileRule cidr r")
    case (Inl err)
    then show ?thesis using None by (simp add: AddRule_def)
  next
    case (Inr m)
    then show ?thesis using AddRule_calls_compiled[OF None Inr] None by blast
  qed
qed

lemma AddRule_NewFlow:
  assumes "NewFlow m \<in> set (drop (length (ofcalls s)) (ofcalls (snd (AddRule cidr env r s))))"
  shows "compileRule cidr r = Inr m"
  using AddRule_calls[of cidr env r s] assms by auto

lemma compileRule_Metadata:
  assumes "compileRule cidr r = Inr m"
  shows "(Metadata m, MetadataMask m) = groupMetadata r"
  using assms
  by (auto simp: compileRule_def split: sum.splits prod.splits)

lemma compileRule_TcpFlags:
  assumes "compileRule cidr r = Inr m"
  shows "tcpFlags r = Inr (FlowMatch.TcpFlags m, TcpFlagsMask m)"
  using assms
  by (auto simp: compileRule_def split: sum.splits prod.splits)

text \<open>
  Claim C3.  \<open>DstGroupMetadata g\<close> is \<^verbatim>\<open>uint64(g) << 1\<close> masked with \<open>0xfffe\<close>, with
  mask \<open>0xfffe\<close>, and \<open>SrcGroupMetadata g\<close> is \<^verbatim>\<open>uint64(g) << 16\<close> masked with
  \<open>0x7fff0000\<close>, with mask \<open>0x7fff0000\<close>.  Whenever \<open>AddRule\<close> creates a flow, its
  match carries: for a rule with both groups nonzero, the bitwise OR of the two
  metadata values under the bitwise OR of the two masks; for a rule with one group
  nonzero, the metadata and the mask of that group alone.  Destination group 42
  alone gives metadata \<open>0x54\<close> under mask \<open>0xfffe\<close>.
\<close>

theorem group_metadata_compilation:
  "DstGroupMetadata g = (push_bit 1 (word_of_int g) AND 0xfffe, 0xfffe) \<and>
   SrcGroupMetadata g = (push_bit 16 (word_of_int g) AND 0x7fff0000, 0x7fff0000) \<and>
   (NewFlow m \<in> set (drop (length (ofcalls s)) (ofcalls (snd (AddRule cidr env r s)))) \<longrightarrow>
      (SrcEndpointGroup r \<noteq> 0 \<and> DstEndpointGroup r \<noteq> 0 \<longrightarrow>
         Metadata m = Some (fst (SrcGroupMetadata (SrcEndpointGroup r)) OR
                            fst (DstGroupMetadata (DstEndpointGroup r))) \<and>
         MetadataMask m = Some (0x7fff0000 OR 0xfffe)) \<and>
      (SrcEndpointGroup r \<noteq> 0 \<and> DstEndpointGroup r = 0 \<longrightarrow>
         Metadata m = Some (fst (SrcGroupMetadata (SrcEndpointGroup r))) \<and>
         MetadataMask m = Some 0x7fff0000) \<and>
      (SrcEndpointGroup r = 0 \<and> DstEndpointGroup r \<noteq> 0 \<longrightarrow>
         Metadata m = Some (fst (DstGroupMetadata (DstEndpointGroup r))) \<and>
         MetadataMask m = Some 0xfffe) \<and>
      (SrcEndpointGroup r = 0 \<and> DstEndpointGroup r = 42 \<longrightarrow>
         Metadata m = Some 0x54 \<and> MetadataMask m = Some 0xfffe))"
proof -
  have "Metadata m = fst (groupMetadata r) \<and> MetadataMask m = snd (groupMetadata r)"
    if "NewFlow m \<in> set (drop (length (ofcalls s)) (ofcalls (snd (AddRule cidr env r s))))"
    using compileRule_Metadata[OF AddRule_NewFlow[OF that]] by (metis fst_conv snd_conv)
  moreover have "fst (DstGroupMetadata 42) = 0x54"
    by (simp add: DstGroupMetadata_def)
  ultimately show ?thesis
    by (auto simp: groupMetadata_def DstGroupMetadata_def SrcGroupMetadata_def Let_def)
qed

text \<open>The theorem at the example state.\<close>

theorem group_metadata_compilation_witness:
  "ofcalls (snd (AddRule cidrTable quietSwitch denyRule NewPolicyAgent)) =
     [NewFlow denyMatch, FlowNext \<lparr>Match = denyMatch, NextElem = None\<rparr> DropAction] \<and>
   Metadata denyMatch = Some 0x54 \<and> MetadataMask denyMatch = Some 0xfffe \<and>
   ofcalls (snd (AddRule cidrTable quietSwitch synRule NewPolicyAgent)) =
     [NewFlow synMatch, FlowNext \<lparr>Match = synMatch, NextElem = None\<rparr> NextTable] \<and>
   Metadata synMatch = Some (0x30000 OR 0x54) \<and>
   MetadataMask synMatch = Some (0x7fff0000 OR 0xfffe)"
proof -
  have d: "ofcalls (snd (AddRule cidrTable quietSwitch denyRule NewPolicyAgent)) =
     [NewFlow denyMatch, FlowNext \<lparr>Match = denyMatch, NextElem = None\<rparr> DropAction]"
    by (simp add: policy_examples policy_ops denyMatch_def)
  then have hd: "NewFlow denyMatch \<in> set (drop (length (ofcalls NewPolicyAgent))
                   (ofcalls (snd (AddRule cidrTable quietSwitch denyRule NewPolicyAgent))))"
    by (simp add: NewPolicyAgent_def)
  have s: "ofcalls (snd (AddRule cidrTable quietSwitch synRule NewPolicyAgent)) =
     [NewFlow synMatch, FlowNext \<lparr>Match = synMatch, NextElem = None\<rparr> NextTable]"
    by (simp add: policy_examples policy_ops synMatch_def)
  then have hs: "NewFlow synMatch \<in> set (drop (length (ofcalls NewPolicyAgent))
                   (ofcalls (snd (AddRule cidrTable quietSwitch synRule NewPolicyAgent))))"
    by (simp add: NewPolicyAgent_def)
  have "Metadata denyMatch = Some 0x54 \<and> MetadataMask denyMatch = Some 0xfffe"
    using group_metadata_compilation[of 42 denyMatch NewPolicyAgent cidrTable quietSwitch denyRule] hd
    by (simp add: denyRule_def)
  moreover have "Metadata synMatch = Some (0x30000 OR 0x54) \<and>
      MetadataMask synMatch = Some (0x7fff0000 OR 0xfffe)"
    using group_metadata_compilation[of 42 synMatch NewPolicyAgent cidrTable quietSwitch synRule] hs
    by (simp add: synRule_def SrcGroupMetadata_def DstGroupMetadata_def)
  ultimately show ?thesis using d s by simp
qed

text \<open>
  Claim C4.  Rule re-submission.  When the rules database holds, under the
  \<open>RuleId\<close> of \<open>r'\<close>, a rule equal to \<open>r'\<close>, \<open>AddRule r'\<close> returns nil and changes
  nothing.  Hence an \<open>AddRule r\<close> that returned nil, followed by a second
  \<open>AddRule r\<close>, ends in the state the first call left, and the second call
  returns nil as well.  When the database holds under that \<open>RuleId\<close> a rule that
  differs from \<open>r'\<close>, \<open>AddRule r'\<close> returns the error \<^verbatim>\<open>"Rule already exists"\<close> and
  changes nothing: the stored rule, its flow and the switch are untouched.
\<close>

theorem AddRule_resubmission:
  "(map_of (Rules s) (RuleId r') = Some pr \<and> PolicyRule.rule pr = r' \<longrightarrow>
      AddRule cidr env r' s = (None, s)) \<and>
   (fst (AddRule cidr env r s) = None \<longrightarrow>
      AddRule cidr env' r (snd (AddRule cidr env r s)) = (None, snd (AddRule cidr env r s))) \<and>
   (map_of (Rules s) (RuleId r') = Some pr \<and> PolicyRule.rule pr \<noteq> r' \<longrightarrow>
      AddRule cidr env r' s = (Some RuleAlreadyExists, s))"
proof -
  have stored: "\<exists>pr. map_of (Rules (snd (AddRule cidr env r s))) (RuleId r) = Some pr \<and>
                  PolicyRule.rule pr = r"
    if "fst (AddRule cidr env r s) = None"
    using that
    by (auto simp: AddRule_def Let_def ruleIsSame_def update_conv'
        split: option.splits sum.splits prod.splits if_splits)
  show ?thesis
    using stored by (auto simp: AddRule_def Let_def ruleIsSame_def)
qed

text \<open>The theorem at the example state.\<close>

theorem AddRule_resubmission_witness:
  "fst (AddRule cidrTable quietSwitch synRule NewPolicyAgent) = None \<and>
   AddRule cidrTable quietSwitch synRule examplePolicy = (None, examplePolicy) \<and>
   AddRule cidrTable quietSwitch (synRule\<lparr>Action := ''deny''\<rparr>) examplePolicy =
     (Some RuleAlreadyExists, examplePolicy)"
proof -
  define pr where "pr = \<lparr>rule = synRule,
      flow = \<lparr>Match = synMatch, NextElem = Some NextTable\<rparr>\<rparr>"
  have ok: "fst (AddRule cidrTable quietSwitch synRule NewPolicyAgent) = None"
    by (simp add: policy_examples policy_ops)
  have h: "map_of (Rules examplePolicy) (RuleId (synRule\<lparr>Action := a\<rparr>)) = Some pr" for a
    by (simp add: policy_examples policy_ops pr_def synMatch_def)
  have same: "PolicyRule.rule pr = synRule" by (simp add: pr_def)
  have diff: "PolicyRule.rule pr \<noteq> synRule\<lparr>Action := ''deny''\<rparr>"
    by (simp add: pr_def synRule_def)
  have "AddRule cidrTable quietSwitch synRule examplePolicy = (None, examplePolicy)"
    using AddRule_resubmission[of NewPolicyAgent synRule pr cidrTable quietSwitch synRule quietSwitch] ok
    by (simp add: examplePolicy_def)
  moreover have "AddRule cidrTable quietSwitch (synRule\<lparr>Action := ''deny''\<rparr>) examplePolicy =
     (Some RuleAlreadyExists, examplePolicy)"
    using AddRule_resubmission[of examplePolicy "synRule\<lparr>Action := ''deny''\<rparr>" pr cidrTable quietSwitch]
      h diff by simp
  ultimately show ?thesis using ok by simp
qed

text \<open>
  Claim C9, as amended.  Let \<open>r\<close> be a rule with \<open>IpProtocol\<close> 6 and nonempty
  \<open>TcpFlags\<close>, whose \<open>RuleId\<close> is not in the rules database and whose two addresses
  are empty or parse.  Then \<open>AddRule\<close> accepts the five strings \<^verbatim>\<open>syn\<close>, \<^verbatim>\<open>ack\<close>,
  \<^verbatim>\<open>syn,ack\<close>, \<^verbatim>\<open>syn,!ack\<close> and \<^verbatim>\<open>!syn,ack\<close>, compiling the flag value and the flag
  mask the source gives for each, and for every other string it returns the
  error \<^verbatim>\<open>"Unknown TCP flag"\<close> and changes nothing, so that no flow is created.
\<close>

theorem AddRule_tcp_flags:
  assumes "IpProtocol r = 6" and "OfnetPolicyRule.TcpFlags r \<noteq> ''''"
    and "map_of (Rules s) (RuleId r) = None"
    and "DstIpAddr r \<noteq> '''' \<longrightarrow> (\<exists>p. cidr (DstIpAddr r) = Inr p)"
    and "SrcIpAddr r \<noteq> '''' \<longrightarrow> (\<exists>p. cidr (SrcIpAddr r) = Inr p)"
  shows "(OfnetPolicyRule.TcpFlags r = ''syn'' \<longrightarrow>
            acceptsFlags cidr env r s TCP_FLAG_SYN TCP_FLAG_SYN) \<and>
         (OfnetPolicyRule.TcpFlags r = ''ack'' \<longrightarrow>
            acceptsFlags cidr env r s TCP_FLAG_ACK TCP_FLAG_ACK) \<and>
         (OfnetPolicyRule.TcpFlags r = ''syn,ack'' \<longrightarrow>
            acceptsFlags cidr env r s (TCP_FLAG_ACK OR TCP_FLAG_SYN) (TCP_FLAG_ACK OR TCP_FLAG_SYN)) \<and>
         (OfnetPolicyRule.TcpFlags r = ''syn,!ack'' \<longrightarrow>
            acceptsFlags cidr env r s TCP_FLAG_SYN (TCP_FLAG_ACK OR TCP_FLAG_SYN)) \<and>
         (OfnetPolicyRule.TcpFlags r = ''!syn,ack'' \<longrightarrow>
            acceptsFlags cidr env r s TCP_FLAG_ACK (TCP_FLAG_ACK OR TCP_FLAG_SYN)) \<and>
         (OfnetPolicyRule.TcpFlags r \<notin> {''syn'', ''ack'', ''syn,ack'', ''syn,!ack'', ''!syn,ack''} \<longrightarrow>
            AddRule cidr env r s = (Some UnknownTcpFlag, s))"
proof -
  have "\<exists>da. parseIp cidr (DstIpAddr r) = Inr da"
    using assms(4) by (cases "DstIpAddr r = []") (auto simp: parseIp_def)
  then obtain da where da: "parseIp cidr (DstIpAddr r) = Inr da" ..
  have "\<exists>sa. parseIp cidr (SrcIpAddr r) = Inr sa"
    using assms(5) by (cases "SrcIpAddr r = []") (auto simp: parseIp_def)
  then obtain sa where sa: "parseIp cidr (SrcIpAddr r) = Inr sa" ..
  have bad: "compileRule cidr r = Inl UnknownTcpFlag"
    if "OfnetPolicyRule.TcpFlags r \<notin> {''syn'', ''ack'', ''syn,ack'', ''syn,!ack'', ''!syn,ack''}"
    using that assms(1,2) da sa
    by (simp add: compileRule_def tcpFlags_def split: prod.splits)
  have good: "acceptsFlags cidr env r s f fm" if "tcpFlags r = Inr (Some f, Some fm)" for f fm
  proof -
    have "\<exists>m. compileRule cidr r = Inr m"
      using that da sa by (cases da; cases sa; cases "groupMetadata r") (simp add: compileRule_def)
    then obtain m where m: "compileRule cidr r = Inr m" ..
    from compileRule_TcpFlags[OF m] that
    have fl: "FlowMatch.TcpFlags m = Some f" "TcpFlagsMask m = Some fm" by simp_all
    from AddRule_calls_compiled[OF assms(3) m, of env]
    have "take (Suc (length (ofcalls s))) (ofcalls (snd (AddRule cidr env r s))) =
            ofcalls s @ [NewFlow m]"
      by auto
    then show ?thesis using m fl by (simp add: acceptsFlags_def)
  qed
  show ?thesis
    using bad good assms(1,2,3)
    by (auto simp: tcpFlags_def AddRule_def)
qed

text \<open>The theorem at the example state.\<close>

theorem AddRule_tcp_flags_witness:
  "acceptsFlags cidrTable quietSwitch synRule NewPolicyAgent 0x2 0x2 \<and>
   acceptsFlags cidrTable quietSwitch (synRule\<lparr>TcpFlags := ''ack''\<rparr>) NewPolicyAgent 0x10 0x10 \<and>
   acceptsFlags cidrTable quietSwitch (synRule\<lparr>TcpFlags := ''syn,ack''\<rparr>) NewPolicyAgent 0x12 0x12 \<and>
   acceptsFlags cidrTable quietSwitch (synRule\<lparr>TcpFlags := ''syn,!ack''\<rparr>) NewPolicyAgent 0x2 0x12 \<and>
   acceptsFlags cidrTable quietSwitch (synRule\<lparr>TcpFlags := ''!syn,ack''\<rparr>) NewPolicyAgent 0x10 0x12 \<and>
   AddRule cidrTable quietSwitch (synRule\<lparr>TcpFlags := ''fin''\<rparr>) NewPolicyAgent =
     (Some UnknownTcpFlag, NewPolicyAgent)"
proof -
  have h1: "IpProtocol (synRule\<lparr>TcpFlags := f\<rparr>) = 6" for f
    by (simp add: synRule_def)
  have h3: "map_of (Rules NewPolicyAgent) (RuleId (synRule\<lparr>TcpFlags := f\<rparr>)) = None" for f
    by (simp add: NewPolicyAgent_def)
  have h4: "DstIpAddr (synRule\<lparr>TcpFlags := f\<rparr>) \<noteq> [] \<longrightarrow>
              (\<exists>p. cidrTable (DstIpAddr (synRule\<lparr>TcpFlags := f\<rparr>)) = Inr p)" for f
    by (simp add: synRule_def)
  have h5: "SrcIpAddr (synRule\<lparr>TcpFlags := f\<rparr>) \<noteq> [] \<longrightarrow>
              (\<exists>p. cidrTable (SrcIpAddr (synRule\<lparr>TcpFlags := f\<rparr>)) = Inr p)" for f
    by (simp add: synRule_def)
  have all: "OfnetPolicyRule.TcpFlags (synRule\<lparr>TcpFlags := f\<rparr>) \<noteq> [] \<Longrightarrow>
     (f = ''syn'' \<longrightarrow>
        acceptsFlags cidrTable quietSwitch (synRule\<lparr>TcpFlags := f\<rparr>) NewPolicyAgent 0x2 0x2) \<and>
     (f = ''ack'' \<longrightarrow>
        acceptsFlags cidrTable quietSwitch (synRule\<lparr>TcpFlags := f\<rparr>) NewPolicyAgent 0x10 0x10) \<and>
     (f = ''syn,ack'' \<longrightarrow>
        acceptsFlags cidrTable quietSwitch (synRule\<lparr>TcpFlags := f\<rparr>) NewPolicyAgent 0x12 0x12) \<and>
     (f = ''syn,!ack'' \<longrightarrow>
        acceptsFlags cidrTable quietSwitch (synRule\<lparr>TcpFlags := f\<rparr>) NewPolicyAgent 0x2 0x12) \<and>
     (f = ''!syn,ack'' \<longrightarrow>
        acceptsFlags cidrTable quietSwitch (synRule\<lparr>TcpFlags := f\<rparr>) NewPolicyAgent 0x10 0x12) \<and>
     (f \<notin> {''syn'', ''ack'', ''syn,ack'', ''syn,!ack'', ''!syn,ack''} \<longrightarrow>
        AddRule cidrTable quietSwitch (synRule\<lparr>TcpFlags := f\<rparr>) NewPolicyAgent =
          (Some UnknownTcpFlag, NewPolicyAgent))" for f
    using AddRule_tcp_flags[OF h1 _ h3 h4 h5, of f quietSwitch]
    by (simp add: TCP_FLAG_ACK_def TCP_FLAG_SYN_def)
  have syn: "synRule\<lparr>TcpFlags := ''syn''\<rparr> = synRule" by (simp add: synRule_def)
  have ne: "OfnetPolicyRule.TcpFlags synRule \<noteq> []" by (simp add: synRule_def)
  show ?thesis
    using all[of "''syn''"] all[of "''ack''"] all[of "''syn,ack''"] all[of "''syn,!ack''"]
      all[of "''!syn,ack''"] all[of "''fin''"]
    by (simp add: syn ne)
qed

text \<open>
  The claim without the amendment fails at the example state.  A TCP rule with the flag
  string \<^verbatim>\<open>fin\<close> is answered with \<^verbatim>\<open>"Rule already exists"\<close> when its \<open>RuleId\<close> is in
  the rules database, and with the error of the CIDR parser when its destination
  address does not parse: both checks come before the flags.
\<close>

theorem AddRule_tcp_flags_counterexample:
  "IpProtocol (synRule\<lparr>TcpFlags := ''fin''\<rparr>) = 6 \<and>
   fst (AddRule cidrTable quietSwitch (synRule\<lparr>TcpFlags := ''fin''\<rparr>) examplePolicy) =
     Some RuleAlreadyExists \<and>
   fst (AddRule cidrTable quietSwitch
          (synRule\<lparr>RuleId := ''r2'', DstIpAddr := ''10.0.0.0'', TcpFlags := ''fin''\<rparr>)
          examplePolicy) =
     Some (ExternalError ''invalid CIDR address'')"
  by (simp add: policy_examples policy_ops)

subsection \<open>The endpoint table stays well formed\<close>

text \<open>
  \<open>endpointDb_ok\<close> holds of the state \<open>NewOfnetAgent\<close> builds and every operation
  that touches the endpoint table keeps it, so it holds of every state the agent
  reaches.
\<close>

lemma set_update_subset: "set (AList.update k v al) \<subseteq> insert (k, v) (set al)"
  by (induction al) auto

lemma endpointDb_ok_update:
  assumes "endpointDb_ok s" and "EndpointID e = k"
    and "endpointDb s' = AList.update k e (endpointDb s)"
  shows "endpointDb_ok s'"
proof -
  have "distinct (map fst (endpointDb s'))"
    using assms(1,3) by (simp add: endpointDb_ok_def distinct_update)
  moreover have "set (endpointDb s') \<subseteq> insert (k, e) (set (endpointDb s))"
    using assms(3) set_update_subset by metis
  ultimately show ?thesis
    using assms(1,2) by (auto simp: endpointDb_ok_def list_all_iff)
qed

lemma endpointDb_ok_same:
  "endpointDb_ok s \<Longrightarrow> endpointDb s' = endpointDb s \<Longrightarrow> endpointDb_ok s'"
  by (simp add: endpointDb_ok_def)

lemma announceAdd_endpointDb: "endpointDb (snd (announceAdd env e ms s)) = endpointDb s"
  using announceAdd_tables[of env e ms s] by (simp add: tables_def)

lemma announceDel_endpointDb: "endpointDb (announceDel env e ms s) = endpointDb s"
  using announceDel_tables[of env e ms s] by (simp add: tables_def)

lemma NewOfnetAgent_ok: "endpointDb_ok (NewOfnetAgent ip)"
  by (simp add: endpointDb_ok_def NewOfnetAgent_def)

lemma EndpointAdd_ok:
  assumes "endpointDb_ok s"
  shows "endpointDb_ok (snd (EndpointAdd env epreg s))"
proof -
  have "endpointDb (snd (EndpointAdd env epreg s)) = endpointDb s \<or>
        endpointDb (snd (EndpointAdd env epreg s)) =
          AList.update (EndpointID epreg) epreg (endpointDb s)"
    by (simp add: EndpointAdd_def invoke_def Let_def split: option.splits)
  then show ?thesis
    using assms endpointDb_ok_same endpointDb_ok_update by blast
qed

lemma EndpointDel_ok:
  assumes "endpointDb_ok s"
  shows "endpointDb_ok (snd (EndpointDel env epreg s))"
proof -
  have "endpointDb (snd (EndpointDel env epreg s)) = endpointDb s \<or>
        endpointDb (snd (EndpointDel env epreg s)) =
          AList.delete (EndpointID epreg) (endpointDb s)"
    by (simp add: EndpointDel_def invoke_def Let_def)
  then show ?thesis
    using assms endpointDb_ok_same endpointDb_ok_delete by blast
qed

lemma AddLocalEndpoint_ok:
  assumes "endpointDb_ok s"
  shows "endpointDb_ok (snd (AddLocalEndpoint env now info s))"
proof -
  have "endpointDb (snd (AddLocalEndpoint env now info s)) = endpointDb s \<or>
        (\<exists>vni. endpointDb (snd (AddLocalEndpoint env now info s)) =
          AList.update (getEndpointId info) (buildEpreg (localIp s) now vni info) (endpointDb s))"
    by (auto simp: AddLocalEndpoint_def invoke_def Let_def announceAdd_endpointDb
        split: option.splits)
  moreover have "EndpointID (buildEpreg (localIp s) now vni info) = getEndpointId info" for vni
    by (simp add: buildEpreg_def)
  ultimately show ?thesis
    using assms endpointDb_ok_same endpointDb_ok_update by blast
qed

lemma RemoveLocalEndpoint_ok:
  assumes "endpointDb_ok s"
  shows "endpointDb_ok (snd (RemoveLocalEndpoint env portNo s))"
proof -
  have "endpointDb (snd (RemoveLocalEndpoint env portNo s)) = endpointDb s \<or>
        (\<exists>k. endpointDb (snd (RemoveLocalEndpoint env portNo s)) = AList.delete k (endpointDb s))"
    by (auto simp: RemoveLocalEndpoint_def invoke_def Let_def announceDel_endpointDb
        split: option.splits)
  then show ?thesis
    using assms endpointDb_ok_same endpointDb_ok_delete by blast
qed

lemma AddVtepPort_ok:
  "endpointDb_ok s \<Longrightarrow> endpointDb_ok (snd (AddVtepPort env portNo remoteIp s))"
  by (simp add: AddVtepPort_def invoke_def endpointDb_ok_def)

lemma AddVlan_ok:
  "endpointDb_ok s \<Longrightarrow> endpointDb_ok (snd (AddVlan env vlanId vni s))"
  by (simp add: AddVlan_def invoke_def endpointDb_ok_def)

lemma RemoveVlan_ok:
  "endpointDb_ok s \<Longrightarrow> RemoveVlan env vlanId vni s = Returns (err, s') \<Longrightarrow> endpointDb_ok s'"
  by (auto simp: RemoveVlan_def invoke_def endpointDb_ok_def Let_def split: if_splits)

lemma uninstallRemote_ok:
  "endpointDb_ok s \<Longrightarrow> endpointDb_ok (uninstallRemote env ip xs s)"
proof (induction xs arbitrary: s)
  case Nil
  then show ?case by simp
next
  case (Cons x xs)
  obtain k e where x: "x = (k, e)" by (cases x)
  have "endpointDb_ok (uninstallIfRemote env ip k s)"
    using Cons.prems EndpointDel_ok by (simp add: uninstallIfRemote_def split: option.splits)
  then show ?case using Cons.IH by (simp add: x)
qed

lemma RemoveVtepPort_ok:
  assumes "endpointDb_ok s"
  shows "endpointDb_ok (snd (RemoveVtepPort env portNo remoteIp s))"
proof -
  have "endpointDb_ok (s\<lparr>vtepTable := AList.delete remoteIp (vtepTable s)\<rparr>)"
    using assms by (simp add: endpointDb_ok_def)
  then have "endpointDb_ok (uninstallRemote env remoteIp (endpointDb s)
                (s\<lparr>vtepTable := AList.delete remoteIp (vtepTable s)\<rparr>))"
    by (rule uninstallRemote_ok)
  then show ?thesis
    by (simp add: RemoveVtepPort_def invoke_def Let_def endpointDb_ok_def)
qed

end
